theory Spec2Isabelle
  imports Main "HOL-Library.AList"
begin

section \<open>JavaScript values\<close>

text \<open>
  The planner and the dispatcher pass values of TypeScript type \<open>any\<close> around (task
  metadata, worker results, job payloads). They are modelled by \<open>jsval\<close>: an object is an
  association list read with \<open>obj_get\<close>, a missing property reads as \<open>JUndefined\<close>.
  Numbers are integers (nothing below depends on floating point), strings are byte strings
  in UTF-8.
\<close>

datatype jsval =
    JUndefined
  | JNull
  | JBool bool
  | JNum int
  | JStr string
  | JArr "jsval list"
  | JObj "(string \<times> jsval) list"

type_synonym obj = "(string \<times> jsval) list"

text \<open>Property read \<open>o[k]\<close> on an object.\<close>

definition obj_get :: "obj \<Rightarrow> string \<Rightarrow> jsval" where
  "obj_get ob k = (case map_of ob k of None \<Rightarrow> JUndefined | Some v \<Rightarrow> v)"

text \<open>
  Property read \<open>v?.k\<close> on any value. The property names the code reads from \<open>any\<close>
  values (\<open>status\<close>, \<open>draft\<close>, \<open>patches\<close>, \<open>queries\<close>, ...) are no built-in property
  of a string, number, boolean or array, so only an object can answer.
\<close>

fun js_get :: "jsval \<Rightarrow> string \<Rightarrow> jsval" where
  "js_get (JObj ob) k = obj_get ob k"
| "js_get _ k = JUndefined"

text \<open>JavaScript truthiness, the test of \<open>if (v)\<close>.\<close>

fun truthy :: "jsval \<Rightarrow> bool" where
  "truthy JUndefined = False"
| "truthy JNull = False"
| "truthy (JBool b) = b"
| "truthy (JNum n) = (n \<noteq> 0)"
| "truthy (JStr s) = (s \<noteq> [])"
| "truthy (JArr _) = True"
| "truthy (JObj _) = True"

text \<open>The operator \<open>a ?? b\<close>.\<close>

definition nullish :: "jsval \<Rightarrow> bool" where
  "nullish v = (v = JUndefined \<or> v = JNull)"

definition coalesce :: "jsval \<Rightarrow> jsval \<Rightarrow> jsval" where
  "coalesce a b = (if nullish a then b else a)"

text \<open>An optional string (\<open>string | undefined\<close>) as a value, and inside a template literal.\<close>

definition opt_js :: "string option \<Rightarrow> jsval" where
  "opt_js s = (case s of None \<Rightarrow> JUndefined | Some x \<Rightarrow> JStr x)"

definition str_of :: "string option \<Rightarrow> string" where
  "str_of s = (case s of None \<Rightarrow> ''undefined'' | Some x \<Rightarrow> x)"

text \<open>Truthiness of an optional string, the test of \<open>if (node.fixed_content)\<close>.\<close>

definition truthy_str :: "string option \<Rightarrow> bool" where
  "truthy_str s = (case s of None \<Rightarrow> False | Some x \<Rightarrow> x \<noteq> [])"

text \<open>
  \<open>JSON.stringify\<close> followed by parsing, which every value written to the store or put on
  a queue goes through: a property whose value is \<open>undefined\<close> is dropped, an \<open>undefined\<close>
  array element becomes \<open>null\<close>.
\<close>

fun jsonify :: "jsval \<Rightarrow> jsval"
  and jsonify_fields :: "(string \<times> jsval) list \<Rightarrow> (string \<times> jsval) list"
  and jsonify_items :: "jsval list \<Rightarrow> jsval list" where
  "jsonify (JObj kvs) = JObj (jsonify_fields kvs)"
| "jsonify (JArr xs) = JArr (jsonify_items xs)"
| "jsonify v = v"
| "jsonify_fields [] = []"
| "jsonify_fields ((k, v) # kvs) =
     (if v = JUndefined then jsonify_fields kvs else (k, jsonify v) # jsonify_fields kvs)"
| "jsonify_items [] = []"
| "jsonify_items (x # xs) = (if x = JUndefined then JNull else jsonify x) # jsonify_items xs"

section \<open>The DAG planner\<close>

subsection \<open>Data model\<close>

text \<open>
  \<open>OutlineNode\<close> declares \<open>chapter_number\<close> and \<open>title\<close> as strings, but the outline of
  a run is the \<open>outline\<close> array of a request body, which nothing checks against the
  interface, so at run time either may be missing; \<open>None\<close> is the missing (\<open>undefined\<close>)
  property.
\<close>

datatype OutlineNode = OutlineNode
  (chapter_number: "string option")
  (title: "string option")
  (govern_standard: "string option")
  (generate_prompt: bool)
  (fixed_content: "string option")
  (enable_subtitles_generation: bool)
  (outline_structure: "OutlineNode list option")

datatype TaskType = Materialize_fixed | Prepare | Retrieve | Write | Verify | Assemble

record TaskNode =
  tn_id :: string
  tn_type :: TaskType
  tn_label :: string
  tn_outlineId :: "string option"
  tn_dependencies :: "string list"
  tn_metadata :: obj

record TaskEdge =
  e_from :: string
  e_to :: string
  e_reason :: "string option"

record Summary =
  total :: nat
  byType :: "(TaskType \<times> nat) list"

record TaskDag =
  nodes :: "TaskNode list"
  edges :: "TaskEdge list"
  summary :: Summary

text \<open>Of an asset record the planner reads the two readiness flags only.\<close>

record AssetIndexRecord =
  asset_id :: string
  embed_ready :: bool
  table_ready :: bool

text \<open>
  \<open>metrics\<close>, \<open>writingJournal\<close> and \<open>evidenceMap\<close> are declared \<open>any\<close> and read as
  dictionaries keyed by chapter number; \<open>None\<close> is the absent property.
\<close>

record PlannerContext =
  projectId :: string
  outline :: "OutlineNode list"
  assetsIndex :: "AssetIndexRecord list"
  projectContext :: obj
  metrics :: "obj option"
  writingJournal :: "obj option"
  evidenceMap :: "obj option"

record FlattenedOutlineNode =
  node :: OutlineNode
  parentId :: "string option"

text \<open>The loop variables of \<open>buildDag\<close>: the two arrays and the id index.\<close>

record planner_state =
  ps_nodes :: "TaskNode list"
  ps_edges :: "TaskEdge list"
  ps_index :: "string \<rightharpoonup> TaskNode"

subsection \<open>Labels and edge reasons\<close>

text \<open>The literals of the source are Chinese text; they are given here as UTF-8 bytes.\<close>

definition label_materialize :: string where
  "label_materialize =
    [CHR 0xE6, CHR 0xB8, CHR 0xB2, CHR 0xE6, CHR 0x9F, CHR 0x93, CHR 0xE5, CHR 0x9B, CHR 0xBA,
     CHR 0xE5, CHR 0xAE, CHR 0x9A, CHR 0xE5, CHR 0x86, CHR 0x85, CHR 0xE5, CHR 0xAE, CHR 0xB9,
     CHR 0x20]"

definition label_prepare :: string where
  "label_prepare =
    [CHR 0xE5, CHR 0x87, CHR 0x86, CHR 0xE5, CHR 0xA4, CHR 0x87, CHR 0xE6, CHR 0x8F, CHR 0x90,
     CHR 0xE7, CHR 0xA4, CHR 0xBA, CHR 0xE8, CHR 0xAF, CHR 0x8D, CHR 0x20]"

definition label_retrieve :: string where
  "label_retrieve =
    [CHR 0xE6, CHR 0xA3, CHR 0x80, CHR 0xE7, CHR 0xB4, CHR 0xA2, CHR 0xE8, CHR 0xB5, CHR 0x84,
     CHR 0xE6, CHR 0x96, CHR 0x99, CHR 0x20]"

definition label_write :: string where
  "label_write =
    [CHR 0xE5, CHR 0x86, CHR 0x99, CHR 0xE4, CHR 0xBD, CHR 0x9C, CHR 0xE7, CHR 0xAB, CHR 0xA0,
     CHR 0xE8, CHR 0x8A, CHR 0x82, CHR 0x20]"

definition label_verify :: string where
  "label_verify =
    [CHR 0xE6, CHR 0xA0, CHR 0xA1, CHR 0xE9, CHR 0xAA, CHR 0x8C, CHR 0xE7, CHR 0xAB, CHR 0xA0,
     CHR 0xE8, CHR 0x8A, CHR 0x82, CHR 0x20]"

definition label_assemble :: string where
  "label_assemble =
    [CHR 0xE8, CHR 0xA3, CHR 0x85, CHR 0xE9, CHR 0x85, CHR 0x8D, CHR 0xE7, CHR 0xAB, CHR 0xA0,
     CHR 0xE8, CHR 0x8A, CHR 0x82, CHR 0x20]"

definition label_document :: string where
  "label_document =
    [CHR 0xE6, CHR 0xB1, CHR 0x87, CHR 0xE6, CHR 0x80, CHR 0xBB, CHR 0xE8, CHR 0xA3, CHR 0x85,
     CHR 0xE9, CHR 0x85, CHR 0x8D, CHR 0xE6, CHR 0x95, CHR 0xB4, CHR 0xE4, CHR 0xBB, CHR 0xBD,
     CHR 0xE6, CHR 0x8A, CHR 0xA5, CHR 0xE5, CHR 0x91, CHR 0x8A]"

definition title_document :: string where
  "title_document =
    [CHR 0xE6, CHR 0x95, CHR 0xB4, CHR 0xE4, CHR 0xBB, CHR 0xBD, CHR 0xE6, CHR 0x8A, CHR 0xA5,
     CHR 0xE5, CHR 0x91, CHR 0x8A]"

definition reason_fixed :: string where
  "reason_fixed =
    [CHR 0xE5, CHR 0x9B, CHR 0xBA, CHR 0xE5, CHR 0xAE, CHR 0x9A, CHR 0xE7, CHR 0xAB, CHR 0xA0,
     CHR 0xE8, CHR 0x8A, CHR 0x82, CHR 0xE8, CHR 0xA3, CHR 0x85, CHR 0xE9, CHR 0x85, CHR 0x8D]"

definition reason_retrieve :: string where
  "reason_retrieve =
    [CHR 0xE6, CHR 0xA3, CHR 0x80, CHR 0xE7, CHR 0xB4, CHR 0xA2, CHR 0xE5, CHR 0x89, CHR 0x8D,
     CHR 0xE7, CHR 0xBD, CHR 0xAE]"

definition reason_write :: string where
  "reason_write =
    [CHR 0xE5, CHR 0x86, CHR 0x99, CHR 0xE4, CHR 0xBD, CHR 0x9C, CHR 0xE4, CHR 0xBE, CHR 0x9D,
     CHR 0xE8, CHR 0xB5, CHR 0x96]"

definition reason_verify :: string where
  "reason_verify =
    [CHR 0xE6, CHR 0xA0, CHR 0xA1, CHR 0xE9, CHR 0xAA, CHR 0x8C, CHR 0xE5, CHR 0x89, CHR 0x8D,
     CHR 0xE7, CHR 0xBD, CHR 0xAE]"

definition reason_assemble :: string where
  "reason_assemble =
    [CHR 0xE8, CHR 0xA3, CHR 0x85, CHR 0xE9, CHR 0x85, CHR 0x8D, CHR 0xE5, CHR 0x89, CHR 0x8D,
     CHR 0xE7, CHR 0xBD, CHR 0xAE]"

definition reason_merge :: string where
  "reason_merge =
    [CHR 0xE7, CHR 0xAB, CHR 0xA0, CHR 0xE8, CHR 0x8A, CHR 0x82, CHR 0xE5, CHR 0x90, CHR 0x88,
     CHR 0xE5, CHR 0xB9, CHR 0xB6]"

subsection \<open>flattenOutline\<close>

text \<open>Pre-order walk; the children of a node carry its chapter number as parent id.\<close>

fun walk :: "OutlineNode list \<Rightarrow> string option \<Rightarrow> FlattenedOutlineNode list" where
  "walk [] parent = []"
| "walk (OutlineNode c t g gp f es os # ns) parent =
     \<lparr>node = OutlineNode c t g gp f es os, parentId = parent\<rparr>
       # (case os of None \<Rightarrow> [] | Some cs \<Rightarrow> walk cs c) @ walk ns parent"

definition flattenOutline :: "OutlineNode list \<Rightarrow> FlattenedOutlineNode list" where
  "flattenOutline ol = walk ol None"

subsection \<open>buildDag\<close>

text \<open>The outline node as the value stored under \<open>metadata.outlineNode\<close>.\<close>

fun outline_js :: "OutlineNode \<Rightarrow> jsval"
  and outline_js_list :: "OutlineNode list \<Rightarrow> jsval list" where
  "outline_js (OutlineNode c t g gp f es os) =
     JObj [(''chapter_number'', opt_js c), (''title'', opt_js t),
           (''govern_standard'', opt_js g), (''generate_prompt'', JBool gp),
           (''fixed_content'', opt_js f), (''enable_subtitles_generation'', JBool es),
           (''outline_structure'',
              (case os of None \<Rightarrow> JUndefined | Some cs \<Rightarrow> JArr (outline_js_list cs)))]"
| "outline_js_list [] = []"
| "outline_js_list (n # ns) = outline_js n # outline_js_list ns"

text \<open>The template literal \<open>`${prefix}:${outlineId}`\<close>.\<close>

definition task_id :: "string \<Rightarrow> string option \<Rightarrow> string" where
  "task_id prefix oid = prefix @ '':'' @ str_of oid"

definition baseLabel :: "OutlineNode \<Rightarrow> string" where
  "baseLabel n = str_of (chapter_number n) @ '' '' @ str_of (title n)"

definition baseMetadata :: "FlattenedOutlineNode \<Rightarrow> obj" where
  "baseMetadata e =
     [(''outlineId'', opt_js (chapter_number (node e))),
      (''title'', opt_js (title (node e))),
      (''outlineNode'', outline_js (node e)),
      (''parentId'', opt_js (parentId e))]"

text \<open>\<open>context.metrics?.[outlineId]\<close> and its two siblings.\<close>

definition ref_of :: "obj option \<Rightarrow> string option \<Rightarrow> jsval" where
  "ref_of d oid = (case d of None \<Rightarrow> JUndefined | Some ob \<Rightarrow> obj_get ob (str_of oid))"

definition hasEmbedReady :: "PlannerContext \<Rightarrow> bool" where
  "hasEmbedReady ctx = list_ex embed_ready (assetsIndex ctx)"

definition hasTableReady :: "PlannerContext \<Rightarrow> bool" where
  "hasTableReady ctx = list_ex table_ready (assetsIndex ctx)"

definition shouldCreateRetrieve :: "PlannerContext \<Rightarrow> bool" where
  "shouldCreateRetrieve ctx = (hasEmbedReady ctx \<or> hasTableReady ctx)"

definition addNode :: "planner_state \<Rightarrow> TaskNode \<Rightarrow> planner_state" where
  "addNode st n =
     (if ps_index st (tn_id n) \<noteq> None then st
      else st\<lparr>ps_nodes := ps_nodes st @ [n], ps_index := (ps_index st)(tn_id n \<mapsto> n)\<rparr>)"

definition push_edge :: "planner_state \<Rightarrow> string \<Rightarrow> string \<Rightarrow> string \<Rightarrow> planner_state" where
  "push_edge st a b why =
     st\<lparr>ps_edges := ps_edges st @ [\<lparr>e_from = a, e_to = b, e_reason = Some why\<rparr>]\<rparr>"

text \<open>The node literals of the loop body, one per \<open>addNode\<close> call.\<close>

definition materialize_node :: "FlattenedOutlineNode \<Rightarrow> TaskNode" where
  "materialize_node e =
     \<lparr>tn_id = task_id ''materialize'' (chapter_number (node e)),
      tn_type = Materialize_fixed,
      tn_label = label_materialize @ baseLabel (node e),
      tn_outlineId = chapter_number (node e),
      tn_dependencies = [],
      tn_metadata = baseMetadata e @
        [(''fixed'', JBool True), (''fixedContent'', opt_js (fixed_content (node e)))]\<rparr>"

definition fixed_assemble_node :: "FlattenedOutlineNode \<Rightarrow> TaskNode" where
  "fixed_assemble_node e =
     \<lparr>tn_id = task_id ''assemble'' (chapter_number (node e)),
      tn_type = Assemble,
      tn_label = label_assemble @ baseLabel (node e),
      tn_outlineId = chapter_number (node e),
      tn_dependencies = [task_id ''materialize'' (chapter_number (node e))],
      tn_metadata = baseMetadata e @ [(''from'', JStr ''fixed'')]\<rparr>"

definition prepare_node :: "PlannerContext \<Rightarrow> FlattenedOutlineNode \<Rightarrow> TaskNode" where
  "prepare_node ctx e =
     \<lparr>tn_id = task_id ''prepare'' (chapter_number (node e)),
      tn_type = Prepare,
      tn_label = label_prepare @ baseLabel (node e),
      tn_outlineId = chapter_number (node e),
      tn_dependencies = [],
      tn_metadata = baseMetadata e @
        [(''contextKeys'', JArr (map (\<lambda>kv. JStr (fst kv)) (projectContext ctx))),
         (''projectContext'', JObj (projectContext ctx)),
         (''assetsAvailability'',
            JObj [(''embedReady'', JBool (hasEmbedReady ctx)),
                  (''tableReady'', JBool (hasTableReady ctx))])]\<rparr>"

definition retrieve_node :: "PlannerContext \<Rightarrow> FlattenedOutlineNode \<Rightarrow> TaskNode" where
  "retrieve_node ctx e =
     \<lparr>tn_id = task_id ''retrieve'' (chapter_number (node e)),
      tn_type = Retrieve,
      tn_label = label_retrieve @ baseLabel (node e),
      tn_outlineId = chapter_number (node e),
      tn_dependencies = [task_id ''prepare'' (chapter_number (node e))],
      tn_metadata = baseMetadata e @
        [(''requirements'',
            JArr ((if hasEmbedReady ctx then [JStr ''embed_ready''] else []) @
                  (if hasTableReady ctx then [JStr ''table_ready''] else []))),
         (''assetsReady'',
            JObj [(''embed'', JBool (hasEmbedReady ctx)),
                  (''table'', JBool (hasTableReady ctx))])]\<rparr>"

definition lastDependency :: "PlannerContext \<Rightarrow> FlattenedOutlineNode \<Rightarrow> string" where
  "lastDependency ctx e =
     (if shouldCreateRetrieve ctx then task_id ''retrieve'' (chapter_number (node e))
      else task_id ''prepare'' (chapter_number (node e)))"

definition write_node :: "PlannerContext \<Rightarrow> FlattenedOutlineNode \<Rightarrow> TaskNode" where
  "write_node ctx e =
     \<lparr>tn_id = task_id ''write'' (chapter_number (node e)),
      tn_type = Write,
      tn_label = label_write @ baseLabel (node e),
      tn_outlineId = chapter_number (node e),
      tn_dependencies = [lastDependency ctx e],
      tn_metadata = baseMetadata e @
        [(''promptSource'', JStr (task_id ''prepare'' (chapter_number (node e)))),
         (''retrievalSource'',
            (if shouldCreateRetrieve ctx
             then JStr (task_id ''retrieve'' (chapter_number (node e))) else JUndefined)),
         (''metricsRef'', ref_of (metrics ctx) (chapter_number (node e))),
         (''writingJournalRef'', ref_of (writingJournal ctx) (chapter_number (node e)))]\<rparr>"

definition verify_node :: "PlannerContext \<Rightarrow> FlattenedOutlineNode \<Rightarrow> TaskNode" where
  "verify_node ctx e =
     \<lparr>tn_id = task_id ''verify'' (chapter_number (node e)),
      tn_type = Verify,
      tn_label = label_verify @ baseLabel (node e),
      tn_outlineId = chapter_number (node e),
      tn_dependencies = [task_id ''write'' (chapter_number (node e))],
      tn_metadata = baseMetadata e @
        [(''journalRef'', ref_of (writingJournal ctx) (chapter_number (node e))),
         (''metricsRef'', ref_of (metrics ctx) (chapter_number (node e))),
         (''evidenceRef'', ref_of (evidenceMap ctx) (chapter_number (node e)))]\<rparr>"

definition assemble_node :: "PlannerContext \<Rightarrow> FlattenedOutlineNode \<Rightarrow> TaskNode" where
  "assemble_node ctx e =
     \<lparr>tn_id = task_id ''assemble'' (chapter_number (node e)),
      tn_type = Assemble,
      tn_label = label_assemble @ baseLabel (node e),
      tn_outlineId = chapter_number (node e),
      tn_dependencies = [task_id ''verify'' (chapter_number (node e))],
      tn_metadata = baseMetadata e @
        [(''evidenceRef'', ref_of (evidenceMap ctx) (chapter_number (node e)))]\<rparr>"

definition finalAssembleId :: string where
  "finalAssembleId = ''assemble:document''"

definition final_node :: "TaskNode list \<Rightarrow> TaskNode" where
  "final_node assembleNodes =
     \<lparr>tn_id = finalAssembleId,
      tn_type = Assemble,
      tn_label = label_document,
      tn_outlineId = None,
      tn_dependencies = map tn_id assembleNodes,
      tn_metadata = [(''stage'', JStr ''final''), (''title'', JStr title_document),
                     (''outlineId'', JStr ''document'')]\<rparr>"

text \<open>
  One iteration of the \<open>for (const entry of flattened)\<close> loop. Nothing in it looks at
  whether \<open>chapter_number\<close> or \<open>title\<close> is present.
\<close>

definition plan_entry :: "PlannerContext \<Rightarrow> planner_state \<Rightarrow> FlattenedOutlineNode \<Rightarrow> planner_state" where
  "plan_entry ctx st e =
     (let oid = chapter_number (node e) in
      if truthy_str (fixed_content (node e)) then
        (let st1 = addNode st (materialize_node e);
             st2 = addNode st1 (fixed_assemble_node e)
         in push_edge st2 (task_id ''materialize'' oid) (task_id ''assemble'' oid) reason_fixed)
      else
        (let st1 = addNode st (prepare_node ctx e);
             st2 = (if shouldCreateRetrieve ctx
                    then push_edge (addNode st1 (retrieve_node ctx e))
                           (task_id ''prepare'' oid) (task_id ''retrieve'' oid) reason_retrieve
                    else st1);
             st3 = push_edge (addNode st2 (write_node ctx e))
                     (lastDependency ctx e) (task_id ''write'' oid) reason_write;
             st4 = push_edge (addNode st3 (verify_node ctx e))
                     (task_id ''write'' oid) (task_id ''verify'' oid) reason_verify
         in push_edge (addNode st4 (assemble_node ctx e))
              (task_id ''verify'' oid) (task_id ''assemble'' oid) reason_assemble))"

definition buildSummary :: "TaskNode list \<Rightarrow> Summary" where
  "buildSummary ns =
     \<lparr>total = length ns,
      byType = foldl (\<lambda>bt n. map (\<lambda>kc. if fst kc = tn_type n then (fst kc, snd kc + 1) else kc) bt)
                 [(Materialize_fixed, 0), (Prepare, 0), (Retrieve, 0), (Write, 0),
                  (Verify, 0), (Assemble, 0)] ns\<rparr>"

definition plan_chapters :: "PlannerContext \<Rightarrow> planner_state" where
  "plan_chapters ctx =
     foldl (plan_entry ctx) \<lparr>ps_nodes = [], ps_edges = [], ps_index = Map.empty\<rparr>
       (flattenOutline (outline ctx))"

text \<open>The part of \<open>buildDag\<close> after the loop: the document-level sink and its edges.\<close>

definition add_document_sink :: "planner_state \<Rightarrow> planner_state" where
  "add_document_sink st =
     (let assembleNodes = filter (\<lambda>n. tn_type n = Assemble) (ps_nodes st) in
      if length assembleNodes > 0 then
        foldl (\<lambda>s n. push_edge s (tn_id n) finalAssembleId reason_merge)
          (addNode st (final_node assembleNodes)) assembleNodes
      else st)"

definition buildDag :: "PlannerContext \<Rightarrow> TaskDag" where
  "buildDag ctx =
     (let st = add_document_sink (plan_chapters ctx)
      in \<lparr>nodes = ps_nodes st, edges = ps_edges st, summary = buildSummary (ps_nodes st)\<rparr>)"

section \<open>The task state store\<close>

subsection \<open>The table \<open>public.task_state\<close>\<close>

datatype TaskStatus = Pending | Running | Completed | Failed | Cancelled | Blocked

text \<open>
  One row of the table. The columns \<open>type\<close> and \<open>status\<close> are \<open>TEXT\<close> in SQL and hold the
  values of the TypeScript unions \<open>TaskNode["type"]\<close> and \<open>TaskStatus\<close>. A \<open>NULL\<close> in
  \<open>dependencies\<close> or \<open>dependents\<close> is read as the empty array by every reader
  (\<open>unnest\<close>, \<open>?? []\<close>) and is the empty list here; \<open>NULL\<close> in \<open>result\<close> is \<open>JNull\<close>, in
  \<open>error\<close> it is \<open>None\<close>; \<open>metadata\<close> and \<open>retries\<close> hold their column defaults
  (\<open>{}\<close>, \<open>0\<close>) where the readers would substitute them. \<open>created_at\<close> is never read
  or written by the code and is left out. \<open>updated_at\<close> is a reading of the database clock.
\<close>

record task_row =
  project_id :: string
  node_id :: string
  task_type :: TaskType
  status :: TaskStatus
  dependencies :: "string list"
  dependents :: "string list"
  metadata :: obj
  result :: jsval
  error :: "string option"
  retries :: int
  updated_at :: nat

text \<open>The interface \<open>TaskRecord\<close>, what the store hands to the dispatcher.\<close>

record TaskRecord =
  r_projectId :: string
  r_nodeId :: string
  r_type :: TaskType
  r_status :: TaskStatus
  r_dependencies :: "string list"
  r_dependents :: "string list"
  r_metadata :: obj
  r_result :: jsval
  r_error :: jsval
  r_retries :: int
  r_updatedAt :: nat

text \<open>A call \<open>queue.add(name, data, opts)\<close> on the queue called \<open>j_queue\<close>.\<close>

record job =
  j_queue :: string
  j_name :: string
  j_data :: jsval
  j_opts :: obj

text \<open>
  The world the dispatcher acts on: the table, the jobs added to the queues so far (oldest
  first), and the database clock. \<open>clock w k\<close> is the time \<open>NOW()\<close> shows to the \<open>k\<close>-th
  statement that reads it (an \<open>UPDATE\<close> through the trigger, an \<open>INSERT\<close> through the column
  default) and \<open>stmts w\<close> counts those statements, so nothing is assumed about how time
  passes. Of the errors the store can report only the violation of the primary key by an
  insert is a result of the model; a lost connection to the database or to the queue
  is outside it.
\<close>

record world =
  rows :: "task_row list"
  jobs :: "job list"
  clock :: "nat \<Rightarrow> nat"
  stmts :: nat

text \<open>The optional fields of \<open>updateStatus\<close>'s \<open>meta\<close> argument; the outer \<open>None\<close> and
  \<open>JUndefined\<close> stand for a field that is not supplied.\<close>

record status_meta =
  m_result :: jsval
  m_error :: "string option option"
  m_retries :: "int option"
  m_metadata :: "obj option"

definition no_meta :: status_meta where
  "no_meta = \<lparr>m_result = JUndefined, m_error = None, m_retries = None, m_metadata = None\<rparr>"

subsection \<open>Statements\<close>

definition has_key :: "string \<Rightarrow> string \<Rightarrow> task_row \<Rightarrow> bool" where
  "has_key p n r = (project_id r = p \<and> node_id r = n)"

text \<open>
  \<open>UPDATE task_state SET ... WHERE ...\<close>: every matching row is changed, and the trigger
  \<open>trg_task_state_updated_at\<close> stamps it with \<open>NOW()\<close>, overriding the \<open>updated_at\<close> the
  client sent.
\<close>

definition sql_update :: "(task_row \<Rightarrow> bool) \<Rightarrow> (task_row \<Rightarrow> task_row) \<Rightarrow> world \<Rightarrow> world" where
  "sql_update P f w =
     w\<lparr>rows := map (\<lambda>r. if P r then (f r)\<lparr>updated_at := clock w (stmts w)\<rparr> else r) (rows w),
       stmts := Suc (stmts w)\<rparr>"

definition updateStatus :: "string \<Rightarrow> string \<Rightarrow> TaskStatus \<Rightarrow> status_meta \<Rightarrow> world \<Rightarrow> world" where
  "updateStatus p n st meta w =
     sql_update (has_key p n)
       (\<lambda>r. r\<lparr>status := st,
              result := (if m_result meta \<noteq> JUndefined then jsonify (m_result meta) else result r),
              error := (case m_error meta of None \<Rightarrow> error r | Some e \<Rightarrow> e),
              retries := (case m_retries meta of None \<Rightarrow> retries r | Some k \<Rightarrow> k),
              metadata := (case m_metadata meta of None \<Rightarrow> metadata r
                           | Some md \<Rightarrow> jsonify_fields md)\<rparr>) w"

definition to_record :: "task_row \<Rightarrow> TaskRecord" where
  "to_record r =
     \<lparr>r_projectId = project_id r, r_nodeId = node_id r, r_type = task_type r,
      r_status = status r, r_dependencies = dependencies r, r_dependents = dependents r,
      r_metadata = metadata r,
      r_result = coalesce (result r) JUndefined,
      r_error = (case error r of None \<Rightarrow> JNull | Some s \<Rightarrow> JStr s),
      r_retries = retries r, r_updatedAt = updated_at r\<rparr>"

text \<open>\<open>getTask\<close>; the primary key leaves \<open>maybeSingle\<close> at most one row to find.\<close>

definition getTask :: "task_row list \<Rightarrow> string \<Rightarrow> string \<Rightarrow> TaskRecord option" where
  "getTask tbl p n = map_option to_record (find (has_key p n) tbl)"

definition getTasks :: "task_row list \<Rightarrow> string \<Rightarrow> string list \<Rightarrow> TaskRecord list" where
  "getTasks tbl p ids =
     (if ids = [] then []
      else map to_record (filter (\<lambda>r. project_id r = p \<and> node_id r \<in> set ids) tbl))"

text \<open>
  The stored procedure \<open>list_ready_tasks\<close>: the pending rows of the project for which the
  join of their unnested dependencies with the table has no row whose status is not
  \<open>completed\<close>. SQL leaves the order of the result open; the model returns the rows in
  table order.
\<close>

definition list_ready_tasks :: "task_row list \<Rightarrow> string \<Rightarrow> task_row list" where
  "list_ready_tasks tbl p =
     filter (\<lambda>ts. project_id ts = p \<and> status ts = Pending \<and>
        \<not> list_ex (\<lambda>dep. list_ex (\<lambda>dep_state.
              project_id dep_state = project_id ts \<and> node_id dep_state = dep \<and>
              status dep_state \<noteq> Completed) tbl) (dependencies ts)) tbl"

text \<open>The procedure returns neither \<open>result\<close> nor \<open>error\<close>, so the records lack both.\<close>

definition to_ready_record :: "task_row \<Rightarrow> TaskRecord" where
  "to_ready_record r =
     \<lparr>r_projectId = project_id r, r_nodeId = node_id r, r_type = task_type r,
      r_status = status r, r_dependencies = dependencies r, r_dependents = dependents r,
      r_metadata = metadata r, r_result = JUndefined, r_error = JUndefined,
      r_retries = retries r, r_updatedAt = updated_at r\<rparr>"

definition listReadyTasks :: "task_row list \<Rightarrow> string \<Rightarrow> TaskRecord list" where
  "listReadyTasks tbl p = map to_ready_record (list_ready_tasks tbl p)"

definition markBlocked :: "string \<Rightarrow> string list \<Rightarrow> world \<Rightarrow> world" where
  "markBlocked p nodeIds w =
     (if nodeIds = [] then w
      else sql_update (\<lambda>r. project_id r = p \<and> node_id r \<in> set nodeIds)
             (\<lambda>r. r\<lparr>status := Blocked\<rparr>) w)"

text \<open>
  \<open>INSERT\<close> of a batch of rows: one statement, refused as a whole when it would break the
  primary key; every new row gets the clock's reading as \<open>updated_at\<close>.
\<close>

datatype store_error = InsertFailed

definition insert_rows :: "task_row list \<Rightarrow> world \<Rightarrow> store_error + world" where
  "insert_rows new w =
     (if distinct (map (\<lambda>r. (project_id r, node_id r)) (rows w @ new))
      then Inr (w\<lparr>rows := rows w @ map (\<lambda>r. r\<lparr>updated_at := clock w (stmts w)\<rparr>) new,
                  stmts := Suc (stmts w)\<rparr>)
      else Inl InsertFailed)"

definition addDependent :: "string \<Rightarrow> string \<Rightarrow> string \<Rightarrow> world \<Rightarrow> world" where
  "addDependent p fromNode toNode w =
     (let dependents0 = (case find (has_key p fromNode) (rows w) of
                           None \<Rightarrow> [] | Some r \<Rightarrow> dependents r)
      in if toNode \<in> set dependents0 then w
         else sql_update (has_key p fromNode)
                (\<lambda>r. r\<lparr>dependents := dependents0 @ [toNode]\<rparr>) w)"

text \<open>\<open>persistDag\<close>: one row per node at status \<open>pending\<close>, then one \<open>addDependent\<close> per edge.\<close>

definition node_row :: "string \<Rightarrow> TaskNode \<Rightarrow> task_row" where
  "node_row p n =
     \<lparr>project_id = p, node_id = tn_id n, task_type = tn_type n, status = Pending,
      dependencies = tn_dependencies n, dependents = [],
      metadata = jsonify_fields (tn_metadata n), result = JNull, error = None, retries = 0,
      updated_at = 0\<rparr>"

definition persistDag :: "string \<Rightarrow> TaskDag \<Rightarrow> world \<Rightarrow> store_error + world" where
  "persistDag p dag w =
     (case insert_rows (map (node_row p) (nodes dag)) w of
        Inl e \<Rightarrow> Inl e
      | Inr w1 \<Rightarrow> Inr (foldl (\<lambda>w' e. addDependent p (e_from e) (e_to e) w') w1 (edges dag)))"

text \<open>\<open>clearProject\<close>: \<open>DELETE\<close> of the project's rows.\<close>

definition clearProject :: "string \<Rightarrow> world \<Rightarrow> world" where
  "clearProject p w = w\<lparr>rows := filter (\<lambda>r. project_id r \<noteq> p) (rows w)\<rparr>"

text \<open>The status the table holds for a node id, if it holds a row for it.\<close>

definition status_of :: "task_row list \<Rightarrow> string \<Rightarrow> string \<Rightarrow> TaskStatus option" where
  "status_of tbl p n = map_option status (find (has_key p n) tbl)"

text \<open>The primary key \<open>(project_id, node_id)\<close>.\<close>

definition primary_key :: "task_row list \<Rightarrow> bool" where
  "primary_key tbl = distinct (map (\<lambda>r. (project_id r, node_id r)) tbl)"

text \<open>
  Every dependency id of every row names a row of the same project. \<open>persistDag\<close> inserts
  all nodes of a DAG at once, so the tables it builds from the planner's DAGs are of this
  kind, and no later write touches a key or a dependency list.
\<close>

definition deps_closed :: "task_row list \<Rightarrow> bool" where
  "deps_closed tbl =
     list_all (\<lambda>r. list_all (\<lambda>dep. list_ex (has_key (project_id r) dep) tbl) (dependencies r)) tbl"

definition store_ok :: "task_row list \<Rightarrow> bool" where
  "store_ok tbl = (primary_key tbl \<and> deps_closed tbl)"

text \<open>
  Readiness as the specification words it: a pending record of the project all of whose
  dependency ids have status \<open>completed\<close>.
\<close>

definition spec_ready :: "task_row list \<Rightarrow> string \<Rightarrow> task_row \<Rightarrow> bool" where
  "spec_ready tbl p r =
     (project_id r = p \<and> status r = Pending \<and>
      list_all (\<lambda>dep. status_of tbl p dep = Some Completed) (dependencies r))"

text \<open>
  Readiness as the stored procedure decides it: a dependency id holds a task back only
  if the project has a row for it whose status is not \<open>completed\<close>.
\<close>

definition code_ready :: "task_row list \<Rightarrow> string \<Rightarrow> task_row \<Rightarrow> bool" where
  "code_ready tbl p r =
     (project_id r = p \<and> status r = Pending \<and>
      list_all (\<lambda>dep. status_of tbl p dep = None \<or> status_of tbl p dep = Some Completed)
        (dependencies r))"

section \<open>The task dispatcher\<close>

subsection \<open>Events and configuration\<close>

datatype EventType = Task TaskType | Autofix

datatype ProgressStatus = PRunning | PFailed | PRetrying

record WorkerResultEvent =
  re_projectId :: string
  re_nodeId :: string
  re_type :: EventType
  re_result :: jsval
  re_error :: "string option"

record WorkerProgressEvent =
  pe_projectId :: string
  pe_nodeId :: string
  pe_type :: EventType
  pe_status :: ProgressStatus
  pe_error :: "string option"

text \<open>The constructor argument \<open>options\<close> of the dispatcher.\<close>

record dispatcher =
  enqueue_options :: "obj option"

definition defaultEnqueueOptions :: obj where
  "defaultEnqueueOptions = [(''removeOnComplete'', JNum 1000), (''removeOnFail'', JNum 5000)]"

text \<open>Object spread \<open>{...a, ...b}\<close>.\<close>

definition spread :: "obj \<Rightarrow> obj \<Rightarrow> obj" where
  "spread a b = foldl (\<lambda>acc kv. AList.update (fst kv) (snd kv) acc) a b"

definition toQueueName :: "string \<Rightarrow> string" where
  "toQueueName part = ''report'' @ ''-'' @ part"

text \<open>\<open>resolveQueue\<close>; its \<open>default\<close> branch cannot be reached from a \<open>TaskType\<close>.\<close>

fun resolveQueue :: "TaskType \<Rightarrow> string" where
  "resolveQueue Materialize_fixed = toQueueName ''materializer''"
| "resolveQueue Prepare = toQueueName ''planner''"
| "resolveQueue Retrieve = toQueueName ''retriever''"
| "resolveQueue Write = toQueueName ''writer''"
| "resolveQueue Verify = toQueueName ''verifier''"
| "resolveQueue Assemble = toQueueName ''assembler''"

subsection \<open>buildJobPayload\<close>

definition starts_with :: "string \<Rightarrow> string \<Rightarrow> bool" where
  "starts_with s pre = (take (length pre) s = pre)"

text \<open>\<open>task.dependencies.find((id) => id.startsWith(pre)) ?? ""\<close>.\<close>

definition find_dep :: "TaskRecord \<Rightarrow> string \<Rightarrow> string" where
  "find_dep task pre =
     (case find (\<lambda>i. starts_with i pre) (r_dependencies task) of None \<Rightarrow> [] | Some i \<Rightarrow> i)"

definition findResult :: "TaskRecord list \<Rightarrow> string \<Rightarrow> jsval" where
  "findResult deps nodeId =
     (case find (\<lambda>dep. r_nodeId dep = nodeId) deps of None \<Rightarrow> JUndefined
      | Some dep \<Rightarrow> r_result dep)"

definition buildJobPayload :: "task_row list \<Rightarrow> string \<Rightarrow> TaskRecord \<Rightarrow> jsval" where
  "buildJobPayload tbl p task =
     (let deps = getTasks tbl p (r_dependencies task);
          md = r_metadata task;
          ids = [(''projectId'', JStr p), (''nodeId'', JStr (r_nodeId task))]
      in case r_type task of
        Materialize_fixed \<Rightarrow>
          JObj (ids @
            [(''fixedContent'', coalesce (obj_get md ''fixedContent'') (obj_get md ''fixed_content'')),
             (''bindings'', obj_get md ''bindings'')])
      | Prepare \<Rightarrow>
          JObj (ids @
            [(''outlineNode'', coalesce (obj_get md ''outlineNode'') (obj_get md ''outline_node'')),
             (''projectContext'',
                coalesce (coalesce (obj_get md ''projectContext'') (obj_get md ''project_context''))
                  (JObj [])),
             (''assetsAvailability'',
                coalesce (obj_get md ''assetsAvailability'')
                  (JObj [(''embedReady'', coalesce (obj_get md ''embedReady'') (JBool False)),
                         (''tableReady'', coalesce (obj_get md ''tableReady'') (JBool False))]))])
      | Retrieve \<Rightarrow>
          (let prepareResult =
                 findResult deps (case r_dependencies task of [] \<Rightarrow> [] | d # _ \<Rightarrow> d)
           in JObj (ids @
            [(''queries'',
                coalesce (coalesce (js_get prepareResult ''queries'') (obj_get md ''queries''))
                  (JArr [])),
             (''limit'', coalesce (obj_get md ''limit'') (JNum 5))]))
      | Write \<Rightarrow>
          (let prepareResult = findResult deps (find_dep task ''prepare'');
               retrieveResult = findResult deps (find_dep task ''retrieve'')
           in JObj (ids @
            [(''title'',
                coalesce (coalesce (coalesce (obj_get md ''title'') (obj_get md ''outlineTitle''))
                  (obj_get md ''label'')) (JStr (r_nodeId task))),
             (''prompt'',
                coalesce (coalesce (js_get (js_get prepareResult ''prompts'') ''user_prompt_text'')
                  (obj_get md ''prompt'')) (JStr [])),
             (''contextPack'', coalesce (js_get retrieveResult ''contextPack'') (JArr [])),
             (''metrics'', obj_get md ''metrics''),
             (''writingJournal'', obj_get md ''writingJournal'')]))
      | Verify \<Rightarrow>
          (let writeResult = findResult deps (find_dep task ''write'')
           in JObj (ids @
            [(''draft'', coalesce (js_get writeResult ''draft'') (obj_get md ''draft'')),
             (''metrics'', obj_get md ''metrics''),
             (''evidenceMap'', obj_get md ''evidenceMap'')]))
      | Assemble \<Rightarrow>
          (let materialized = findResult deps (find_dep task ''materialize'');
               verified = findResult deps (find_dep task ''verify'')
           in JObj (ids @
            [(''fixedBlocks'',
                (if truthy materialized then JArr [js_get materialized ''renderedBlock'']
                 else obj_get md ''fixedBlocks'')),
             (''draft'', coalesce (js_get verified ''draft'') (obj_get md ''draft'')),
             (''children'', JArr (map JStr (r_dependents task)))])))"

subsection \<open>Scheduling\<close>

definition queue_add :: "string \<Rightarrow> string \<Rightarrow> jsval \<Rightarrow> obj \<Rightarrow> world \<Rightarrow> world" where
  "queue_add q name payload opts w =
     w\<lparr>jobs := jobs w @ [\<lparr>j_queue = q, j_name = name, j_data = payload, j_opts = opts\<rparr>]\<rparr>"

definition enqueueTask :: "dispatcher \<Rightarrow> string \<Rightarrow> TaskRecord \<Rightarrow> world \<Rightarrow> world" where
  "enqueueTask d p task w =
     (let queue = resolveQueue (r_type task);
          payload = buildJobPayload (rows w) p task;
          options = spread defaultEnqueueOptions
                      (case enqueue_options d of None \<Rightarrow> [] | Some ob \<Rightarrow> ob);
          w1 = queue_add queue (p @ '':'' @ r_nodeId task) payload options w
      in updateStatus p (r_nodeId task) Running no_meta w1)"

definition enqueueReadyTasks :: "dispatcher \<Rightarrow> string \<Rightarrow> world \<Rightarrow> world" where
  "enqueueReadyTasks d p w =
     foldl (\<lambda>w' task. enqueueTask d p task w') w (listReadyTasks (rows w) p)"

text \<open>\<open>schedule\<close>; \<open>reset\<close> is \<open>true\<close> unless the caller says otherwise.\<close>

definition schedule :: "dispatcher \<Rightarrow> string \<Rightarrow> TaskDag \<Rightarrow> bool \<Rightarrow> world \<Rightarrow> store_error + world" where
  "schedule d p dag reset w =
     (case persistDag p dag (if reset then clearProject p w else w) of
        Inl e \<Rightarrow> Inl e
      | Inr w1 \<Rightarrow> Inr (enqueueReadyTasks d p w1))"

definition blockDependentsOnFailure :: "string \<Rightarrow> string \<Rightarrow> world \<Rightarrow> world" where
  "blockDependentsOnFailure p n w =
     (case getTask (rows w) p n of
        None \<Rightarrow> w
      | Some record \<Rightarrow>
          if length (r_dependents record) = 0 then w
          else markBlocked p (r_dependents record) w)"

subsection \<open>Autofix resolution\<close>

text \<open>
  The first half of \<open>handleAutofixSuccess\<close>: the metadata with the patched draft merged in
  and the stashed keys deleted, and the \<open>updateStatus\<close> call that writes it with status
  \<open>pending\<close>.
\<close>

definition autofix_metadata :: "WorkerResultEvent \<Rightarrow> TaskRecord \<Rightarrow> obj" where
  "autofix_metadata ev task =
     AList.delete ''violations'' (AList.delete ''pendingPatches''
       (AList.update ''draft''
          (coalesce (js_get (re_result ev) ''draft'') (obj_get (r_metadata task) ''draft''))
          (r_metadata task)))"

definition autofix_reset :: "WorkerResultEvent \<Rightarrow> TaskRecord \<Rightarrow> world \<Rightarrow> world" where
  "autofix_reset ev task w =
     updateStatus (re_projectId ev) (re_nodeId ev) Pending
       (no_meta\<lparr>m_metadata := Some (autofix_metadata ev task),
                m_result := js_get (re_result ev) ''draft''\<rparr>) w"

definition handleAutofixSuccess :: "dispatcher \<Rightarrow> WorkerResultEvent \<Rightarrow> world \<Rightarrow> world" where
  "handleAutofixSuccess d ev w =
     (case getTask (rows w) (re_projectId ev) (re_nodeId ev) of
        None \<Rightarrow> w
      | Some task \<Rightarrow>
          (let w1 = autofix_reset ev task w
           in case getTask (rows w1) (re_projectId ev) (re_nodeId ev) of
                None \<Rightarrow> w1
              | Some refreshed \<Rightarrow> enqueueTask d (re_projectId ev) refreshed w1))"

definition handleAutofixFailure :: "WorkerResultEvent \<Rightarrow> world \<Rightarrow> world" where
  "handleAutofixFailure ev w =
     blockDependentsOnFailure (re_projectId ev) (re_nodeId ev)
       (updateStatus (re_projectId ev) (re_nodeId ev) Failed
          (no_meta\<lparr>m_error := Some (Some (case re_error ev of None \<Rightarrow> ''AutoFix failed''
                                                | Some s \<Rightarrow> s))\<rparr>) w)"

subsection \<open>Verify classification\<close>

definition handleVerifyResult :: "dispatcher \<Rightarrow> WorkerResultEvent \<Rightarrow> world \<Rightarrow> world" where
  "handleVerifyResult d ev w =
     (let verifyResult = re_result ev; p = re_projectId ev; n = re_nodeId ev in
      if \<not> truthy verifyResult then
        enqueueReadyTasks d p (updateStatus p n Completed no_meta w)
      else if js_get verifyResult ''status'' = JStr ''accept'' then
        enqueueReadyTasks d p
          (updateStatus p n Completed (no_meta\<lparr>m_result := js_get verifyResult ''draft''\<rparr>) w)
      else if js_get verifyResult ''status'' = JStr ''hard_fail'' then
        blockDependentsOnFailure p n
          (updateStatus p n Failed
             (no_meta\<lparr>m_error := Some (Some ''Verifier hard fail''),
                      m_result := js_get verifyResult ''draft''\<rparr>) w)
      else if js_get verifyResult ''status'' = JStr ''soft_fail'' then
        (case getTask (rows w) p n of
           None \<Rightarrow> w
         | Some task \<Rightarrow>
             (let md = AList.update ''violations'' (js_get verifyResult ''violations'')
                         (AList.update ''pendingPatches'' (js_get verifyResult ''patches'')
                           (AList.update ''draft'' (js_get verifyResult ''draft'')
                             (r_metadata task)));
                  w1 = updateStatus p n Blocked
                         (no_meta\<lparr>m_metadata := Some md,
                                  m_result := js_get verifyResult ''draft''\<rparr>) w
              in queue_add (toQueueName ''autofixer'') (p @ '':'' @ n @ '':autofix'')
                   (JObj [(''projectId'', JStr p), (''nodeId'', JStr n),
                          (''draft'', js_get verifyResult ''draft''),
                          (''patches'', coalesce (js_get verifyResult ''patches'') (JArr []))])
                   defaultEnqueueOptions w1))
      else w)"

subsection \<open>Event handlers\<close>

definition handleWorkerProgress :: "WorkerProgressEvent \<Rightarrow> world \<Rightarrow> world" where
  "handleWorkerProgress ev w =
     (if pe_type ev = Autofix then
        (if pe_status ev = PFailed then
           handleAutofixFailure
             \<lparr>re_projectId = pe_projectId ev, re_nodeId = pe_nodeId ev, re_type = Autofix,
              re_result = JUndefined, re_error = pe_error ev\<rparr> w
         else w)
      else if pe_status ev = PRunning then
        updateStatus (pe_projectId ev) (pe_nodeId ev) Running no_meta w
      else if pe_status ev = PFailed then
        blockDependentsOnFailure (pe_projectId ev) (pe_nodeId ev)
          (updateStatus (pe_projectId ev) (pe_nodeId ev) Failed
             (no_meta\<lparr>m_error := map_option Some (pe_error ev)\<rparr>) w)
      else w)"

definition handleWorkerResult :: "dispatcher \<Rightarrow> WorkerResultEvent \<Rightarrow> world \<Rightarrow> world" where
  "handleWorkerResult d ev w =
     (if re_type ev = Autofix then
        (if truthy_str (re_error ev) then handleAutofixFailure ev w
         else handleAutofixSuccess d ev w)
      else if truthy_str (re_error ev) then
        blockDependentsOnFailure (re_projectId ev) (re_nodeId ev)
          (updateStatus (re_projectId ev) (re_nodeId ev) Failed
             (no_meta\<lparr>m_error := map_option Some (re_error ev)\<rparr>) w)
      else if re_type ev = Task Verify \<and> truthy (js_get (re_result ev) ''status'') then
        handleVerifyResult d ev w
      else
        enqueueReadyTasks d (re_projectId ev)
          (updateStatus (re_projectId ev) (re_nodeId ev) Completed
             (no_meta\<lparr>m_result := re_result ev\<rparr>) w))"

section \<open>Notions used to state and prove the planner's properties\<close>

text \<open>
  The nodes one loop iteration hands to \<open>addNode\<close>, in order, and the edges it pushes.
\<close>

definition entry_nodes :: "PlannerContext \<Rightarrow> FlattenedOutlineNode \<Rightarrow> TaskNode list" where
  "entry_nodes ctx e =
     (if truthy_str (fixed_content (node e)) then [materialize_node e, fixed_assemble_node e]
      else prepare_node ctx e #
             (if shouldCreateRetrieve ctx then [retrieve_node ctx e] else []) @
             [write_node ctx e, verify_node ctx e, assemble_node ctx e])"

definition mk_edge :: "string \<Rightarrow> string \<Rightarrow> string \<Rightarrow> TaskEdge" where
  "mk_edge a b why = \<lparr>e_from = a, e_to = b, e_reason = Some why\<rparr>"

definition entry_edges :: "PlannerContext \<Rightarrow> FlattenedOutlineNode \<Rightarrow> TaskEdge list" where
  "entry_edges ctx e =
     (let oid = chapter_number (node e) in
      if truthy_str (fixed_content (node e))
      then [mk_edge (task_id ''materialize'' oid) (task_id ''assemble'' oid) reason_fixed]
      else (if shouldCreateRetrieve ctx
            then [mk_edge (task_id ''prepare'' oid) (task_id ''retrieve'' oid) reason_retrieve]
            else []) @
           [mk_edge (lastDependency ctx e) (task_id ''write'' oid) reason_write,
            mk_edge (task_id ''write'' oid) (task_id ''verify'' oid) reason_verify,
            mk_edge (task_id ''verify'' oid) (task_id ''assemble'' oid) reason_assemble])"

text \<open>The id index mirrors the node array.\<close>

definition index_ok :: "planner_state \<Rightarrow> bool" where
  "index_ok st = (\<forall>i. (ps_index st i \<noteq> None) = (i \<in> tn_id ` set (ps_nodes st)))"

definition init_state :: planner_state where
  "init_state = \<lparr>ps_nodes = [], ps_edges = [], ps_index = Map.empty\<rparr>"

text \<open>The six ids a chapter number can give rise to.\<close>

definition chapter_ids :: "string option \<Rightarrow> string list" where
  "chapter_ids oid =
     map (\<lambda>pre. task_id pre oid)
       [''materialize'', ''prepare'', ''retrieve'', ''write'', ''verify'', ''assemble'']"

text \<open>Example inputs.\<close>

definition mk_chapter :: "string option \<Rightarrow> string option \<Rightarrow> string option \<Rightarrow> OutlineNode" where
  "mk_chapter c t f = OutlineNode c t None True f False None"

definition asset :: "bool \<Rightarrow> bool \<Rightarrow> AssetIndexRecord" where
  "asset eb tb = \<lparr>asset_id = ''a1'', embed_ready = eb, table_ready = tb\<rparr>"

definition example_context :: "OutlineNode list \<Rightarrow> AssetIndexRecord list \<Rightarrow> PlannerContext" where
  "example_context ol assets =
     \<lparr>projectId = ''p1'', outline = ol, assetsIndex = assets, projectContext = [],
      metrics = None, writingJournal = None, evidenceMap = None\<rparr>"

text \<open>An outline entry that lacks both its chapter number and its title.\<close>

definition malformed_chapter :: OutlineNode where
  "malformed_chapter = mk_chapter None None None"

text \<open>A well-formed chapter with such an entry as its only child.\<close>

definition parent_chapter :: OutlineNode where
  "parent_chapter =
     OutlineNode (Some ''1'') (Some ''Scope'') None True None False (Some [malformed_chapter])"

text \<open>What a node handed to \<open>addNode\<close> by an iteration looks like.\<close>

definition stage_of :: "PlannerContext \<Rightarrow> FlattenedOutlineNode \<Rightarrow> TaskNode \<Rightarrow> bool" where
  "stage_of ctx e n =
     (let c = chapter_number (node e); fixed = truthy_str (fixed_content (node e)) in
      tn_outlineId n = c \<and>
      ((fixed \<and> tn_type n = Materialize_fixed \<and> tn_id n = task_id ''materialize'' c \<and>
          tn_dependencies n = []) \<or>
       (fixed \<and> tn_type n = Assemble \<and> tn_id n = task_id ''assemble'' c \<and>
          tn_dependencies n = [task_id ''materialize'' c]) \<or>
       (\<not> fixed \<and> tn_type n = Prepare \<and> tn_id n = task_id ''prepare'' c \<and>
          tn_dependencies n = []) \<or>
       (\<not> fixed \<and> shouldCreateRetrieve ctx \<and> tn_type n = Retrieve \<and>
          tn_id n = task_id ''retrieve'' c \<and> tn_dependencies n = [task_id ''prepare'' c]) \<or>
       (\<not> fixed \<and> tn_type n = Write \<and> tn_id n = task_id ''write'' c \<and>
          tn_dependencies n =
            [if shouldCreateRetrieve ctx then task_id ''retrieve'' c else task_id ''prepare'' c]) \<or>
       (\<not> fixed \<and> tn_type n = Verify \<and> tn_id n = task_id ''verify'' c \<and>
          tn_dependencies n = [task_id ''write'' c]) \<or>
       (\<not> fixed \<and> tn_type n = Assemble \<and> tn_id n = task_id ''assemble'' c \<and>
          tn_dependencies n = [task_id ''verify'' c])))"

definition plain_chapter :: OutlineNode where
  "plain_chapter = mk_chapter (Some ''1'') (Some ''Scope'') None"

definition fixed_chapter :: OutlineNode where
  "fixed_chapter = mk_chapter (Some ''2'') (Some ''Notice'') (Some ''All rights reserved.'')"

definition ctx_no_assets :: PlannerContext where
  "ctx_no_assets =
     example_context [plain_chapter, fixed_chapter, malformed_chapter] [asset False False]"

definition ctx_table_ready :: PlannerContext where
  "ctx_table_ready =
     example_context [plain_chapter, fixed_chapter, malformed_chapter] [asset False True]"

definition ctx_empty :: PlannerContext where
  "ctx_empty = example_context [] [asset True True]"

definition entry :: "OutlineNode \<Rightarrow> FlattenedOutlineNode" where
  "entry n = \<lparr>node = n, parentId = None\<rparr>"

section \<open>Notions used to state the dispatcher's properties\<close>

text \<open>
  The dispatcher's two entry points as one function of an incoming event, and the events
  that mark their node failed: a failed progress event, a result carrying an error, a
  verify result with status \<open>hard_fail\<close>.
\<close>

datatype dispatcher_event = ProgressEvent WorkerProgressEvent | ResultEvent WorkerResultEvent

fun deliver :: "dispatcher \<Rightarrow> dispatcher_event \<Rightarrow> world \<Rightarrow> world" where
  "deliver d (ProgressEvent ev) w = handleWorkerProgress ev w"
| "deliver d (ResultEvent ev) w = handleWorkerResult d ev w"




text \<open>A row without its timestamp.\<close>

definition untimed :: "task_row \<Rightarrow> task_row" where
  "untimed r = r\<lparr>updated_at := 0\<rparr>"

text \<open>
  The worlds the system can be in: it starts with an empty table; a run is scheduled with
  the DAG the planner builds (the orchestrator's \<open>schedule\<close>), workers deliver events,
  and \<open>resume\<close> enqueues the ready tasks again.
\<close>

inductive reachable :: "world \<Rightarrow> bool" where
  start: "rows w = [] \<Longrightarrow> reachable w"
| scheduled: "reachable w \<Longrightarrow> schedule d p (buildDag ctx) reset w = Inr w' \<Longrightarrow> reachable w'"
| delivered: "reachable w \<Longrightarrow> reachable (deliver d ev w)"
| resumed: "reachable w \<Longrightarrow> reachable (enqueueReadyTasks d p w)"

text \<open>Example stores and events.\<close>

definition mk_row :: "string \<Rightarrow> TaskType \<Rightarrow> TaskStatus \<Rightarrow> string list \<Rightarrow> string list \<Rightarrow> task_row" where
  "mk_row n ty st deps dpts =
     \<lparr>project_id = ''p1'', node_id = n, task_type = ty, status = st, dependencies = deps,
      dependents = dpts, metadata = [], result = JNull, error = None, retries = 0,
      updated_at = 0\<rparr>"

definition mk_world :: "task_row list \<Rightarrow> world" where
  "mk_world tbl = \<lparr>rows = tbl, jobs = [], clock = (\<lambda>k. 100 + k), stmts = 0\<rparr>"

definition default_dispatcher :: dispatcher where
  "default_dispatcher = \<lparr>enqueue_options = None\<rparr>"

text \<open>One chapter in flight: \<open>prepare\<close> is done, \<open>write\<close> is running.\<close>

definition chain_rows :: "task_row list" where
  "chain_rows =
     [mk_row ''prepare:1'' Prepare Completed [] [''write:1''],
      mk_row ''write:1'' Write Running [''prepare:1''] [''verify:1''],
      mk_row ''verify:1'' Verify Pending [''write:1''] [''assemble:1''],
      mk_row ''assemble:1'' Assemble Pending [''verify:1''] [''assemble:document'']]"

text \<open>The same chapter with \<open>write\<close> done and \<open>verify\<close> running.\<close>

definition verifying_rows :: "task_row list" where
  "verifying_rows =
     [mk_row ''prepare:1'' Prepare Completed [] [''write:1''],
      mk_row ''write:1'' Write Completed [''prepare:1''] [''verify:1''],
      mk_row ''verify:1'' Verify Running [''write:1''] [''assemble:1''],
      mk_row ''assemble:1'' Assemble Pending [''verify:1''] [''assemble:document'']]"

definition result_event :: "string \<Rightarrow> EventType \<Rightarrow> jsval \<Rightarrow> string option \<Rightarrow> WorkerResultEvent" where
  "result_event n ty res err =
     \<lparr>re_projectId = ''p1'', re_nodeId = n, re_type = ty, re_result = res, re_error = err\<rparr>"

definition soft_fail_result :: jsval where
  "soft_fail_result =
     JObj [(''status'', JStr ''soft_fail''), (''draft'', JStr ''text''),
           (''violations'', JArr [JStr ''v1'']), (''patches'', JArr [JStr ''p1''])]"

text \<open>A restart after a crash: \<open>prepare\<close> is done, nothing else has been dispatched.\<close>

definition restart_rows :: "task_row list" where
  "restart_rows =
     [mk_row ''prepare:1'' Prepare Completed [] [''write:1''],
      mk_row ''write:1'' Write Pending [''prepare:1''] [''verify:1''],
      mk_row ''verify:1'' Verify Pending [''write:1''] [''assemble:1'']]"

definition retry_result :: jsval where
  "retry_result = JObj [(''status'', JStr ''retry''), (''draft'', JStr ''text'')]"

text \<open>The chapter with its \<open>verify\<close> task paused by a soft failure.\<close>

definition blocked_rows :: "task_row list" where
  "blocked_rows =
     [mk_row ''write:1'' Write Completed [''prepare:1''] [''verify:1''],
      (mk_row ''verify:1'' Verify Blocked [''write:1''] [''assemble:1''])
        \<lparr>metadata := [(''title'', JStr ''Scope''), (''draft'', JStr ''text''),
                      (''pendingPatches'', JArr [JStr ''p1'']),
                      (''violations'', JArr [JStr ''v1''])]\<rparr>,
      mk_row ''assemble:1'' Assemble Pending [''verify:1''] [''assemble:document'']]"

definition autofix_result :: jsval where
  "autofix_result = JObj [(''draft'', JStr ''patched text'')]"

definition write_result :: jsval where
  "write_result = JObj [(''draft'', JStr ''text'')]"

text \<open>The \<open>write\<close> worker of the chapter reports an error.\<close>

definition write_failed_event :: dispatcher_event where
  "write_failed_event =
     ResultEvent (result_event ''write:1'' (Task Write) JUndefined (Some ''timeout''))"

text \<open>How enqueueing the tasks with node ids \<open>K\<close> changes a row.\<close>

definition enq_rel :: "string \<Rightarrow> string set \<Rightarrow> task_row \<Rightarrow> task_row \<Rightarrow> bool" where
  "enq_rel p K x y =
     (if project_id x = p \<and> node_id x \<in> K
      then \<exists>t. y = x\<lparr>status := Running, updated_at := t\<rparr>
      else y = x)"

text \<open>A row is held back: one of its dependency ids has a row that is not completed.\<close>

definition blocking :: "task_row list \<Rightarrow> task_row \<Rightarrow> bool" where
  "blocking tbl ts =
     list_ex (\<lambda>dep. list_ex (\<lambda>dep_state.
        project_id dep_state = project_id ts \<and> node_id dep_state = dep \<and>
        status dep_state \<noteq> Completed) tbl) (dependencies ts)"


section \<open>Properties of the planner\<close>

subsection \<open>The loop of \<open>buildDag\<close>\<close>

lemma ps_edges_addNode: "ps_edges (addNode st n) = ps_edges st"
  by (simp add: addNode_def)

lemma addNode_push_edge: "addNode (push_edge st a b w) n = push_edge (addNode st n) a b w"
  by (simp add: addNode_def push_edge_def)

lemma push_edge_alt: "push_edge st a b w = st\<lparr>ps_edges := ps_edges st @ [mk_edge a b w]\<rparr>"
  by (simp add: push_edge_def mk_edge_def)

lemma addNode_edges_update: "addNode (st\<lparr>ps_edges := x\<rparr>) n = (addNode st n)\<lparr>ps_edges := x\<rparr>"
  by (simp add: addNode_def)

lemma foldl_addNode_edges_update:
  "foldl addNode (st\<lparr>ps_edges := x\<rparr>) ns = (foldl addNode st ns)\<lparr>ps_edges := x\<rparr>"
  by (induction ns arbitrary: st) (simp_all add: addNode_edges_update)

lemma ps_edges_foldl_addNode: "ps_edges (foldl addNode st ns) = ps_edges st"
  by (induction ns arbitrary: st) (simp_all add: ps_edges_addNode)

lemma plan_entry_eq:
  "plan_entry ctx st e =
     (foldl addNode st (entry_nodes ctx e))\<lparr>ps_edges := ps_edges st @ entry_edges ctx e\<rparr>"
  by (simp add: plan_entry_def entry_nodes_def entry_edges_def Let_def push_edge_alt
        addNode_edges_update ps_edges_addNode)

lemma foldl_plan_entry:
  "foldl (plan_entry ctx) st es =
     (foldl addNode st (concat (map (entry_nodes ctx) es)))
       \<lparr>ps_edges := ps_edges st @ concat (map (entry_edges ctx) es)\<rparr>"
proof (induction es arbitrary: st)
  case Nil
  show ?case by simp
next
  case (Cons e es)
  have "foldl (plan_entry ctx) st (e # es) =
        (foldl addNode (plan_entry ctx st e) (concat (map (entry_nodes ctx) es)))
          \<lparr>ps_edges := ps_edges (plan_entry ctx st e) @ concat (map (entry_edges ctx) es)\<rparr>"
    using Cons.IH [of "plan_entry ctx st e"] by simp
  also have "\<dots> = (foldl addNode st (concat (map (entry_nodes ctx) (e # es))))
          \<lparr>ps_edges := ps_edges st @ concat (map (entry_edges ctx) (e # es))\<rparr>"
    unfolding plan_entry_eq
    by (simp add: foldl_addNode_edges_update ps_edges_foldl_addNode)
  finally show ?case .
qed

lemma index_ok_addNode: "index_ok st \<Longrightarrow> index_ok (addNode st n)"
  by (auto simp: index_ok_def addNode_def)

lemma nodes_addNode:
  "index_ok st \<Longrightarrow> ps_nodes (addNode st n) =
     (if tn_id n \<in> tn_id ` set (ps_nodes st) then ps_nodes st else ps_nodes st @ [n])"
  by (auto simp: index_ok_def addNode_def)

lemma index_ok_foldl: "index_ok st \<Longrightarrow> index_ok (foldl addNode st ns)"
  by (induction ns arbitrary: st) (simp_all add: index_ok_addNode)

lemma foldl_addNode_mono:
  "index_ok st \<Longrightarrow> set (ps_nodes st) \<subseteq> set (ps_nodes (foldl addNode st ns))"
proof (induction ns arbitrary: st)
  case Nil
  show ?case by simp
next
  case (Cons n ns)
  have "set (ps_nodes st) \<subseteq> set (ps_nodes (addNode st n))"
    using Cons.prems by (auto simp: nodes_addNode)
  moreover have "set (ps_nodes (addNode st n)) \<subseteq> set (ps_nodes (foldl addNode (addNode st n) ns))"
    using Cons.IH [OF index_ok_addNode [OF Cons.prems]] .
  ultimately show ?case by auto
qed

lemma foldl_addNode_origin:
  "index_ok st \<Longrightarrow> set (ps_nodes (foldl addNode st ns)) \<subseteq> set (ps_nodes st) \<union> set ns"
proof (induction ns arbitrary: st)
  case Nil
  show ?case by simp
next
  case (Cons n ns)
  have "set (ps_nodes (addNode st n)) \<subseteq> set (ps_nodes st) \<union> {n}"
    using Cons.prems by (auto simp: nodes_addNode)
  with Cons.IH [OF index_ok_addNode [OF Cons.prems]] show ?case by auto
qed

lemma foldl_addNode_ids:
  "index_ok st \<Longrightarrow> tn_id ` set ns \<subseteq> tn_id ` set (ps_nodes (foldl addNode st ns))"
proof (induction ns arbitrary: st)
  case Nil
  show ?case by simp
next
  case (Cons n ns)
  have ok: "index_ok (addNode st n)" using Cons.prems by (rule index_ok_addNode)
  have "tn_id n \<in> tn_id ` set (ps_nodes (addNode st n))"
    using Cons.prems by (auto simp: nodes_addNode)
  then have "tn_id n \<in> tn_id ` set (ps_nodes (foldl addNode (addNode st n) ns))"
    using foldl_addNode_mono [OF ok, of ns] by auto
  with Cons.IH [OF ok] show ?case by auto
qed

lemma foldl_addNode_distinct:
  "index_ok st \<Longrightarrow> distinct (map tn_id (ps_nodes st)) \<Longrightarrow>
   distinct (map tn_id (ps_nodes (foldl addNode st ns)))"
proof (induction ns arbitrary: st)
  case Nil
  then show ?case by simp
next
  case (Cons n ns)
  have "distinct (map tn_id (ps_nodes (addNode st n)))"
    using Cons.prems by (auto simp: nodes_addNode)
  with Cons.IH [OF index_ok_addNode [OF Cons.prems(1)]] show ?case by simp
qed

lemma plan_chapters_eq:
  "plan_chapters ctx =
     (foldl addNode init_state (concat (map (entry_nodes ctx) (flattenOutline (outline ctx)))))
       \<lparr>ps_edges := concat (map (entry_edges ctx) (flattenOutline (outline ctx)))\<rparr>"
  by (simp add: plan_chapters_def foldl_plan_entry init_state_def)

lemma index_ok_init: "index_ok init_state"
  by (simp add: index_ok_def init_state_def)

lemma chapters_index_ok: "index_ok (plan_chapters ctx)"
  using index_ok_foldl [OF index_ok_init]
  by (simp add: plan_chapters_eq index_ok_def)

lemma chapters_origin:
  "n \<in> set (ps_nodes (plan_chapters ctx)) \<Longrightarrow>
   \<exists>e \<in> set (flattenOutline (outline ctx)). n \<in> set (entry_nodes ctx e)"
  using foldl_addNode_origin [OF index_ok_init, of "concat (map (entry_nodes ctx) (flattenOutline (outline ctx)))"]
  by (auto simp: plan_chapters_eq init_state_def)

lemma chapters_ids:
  "e \<in> set (flattenOutline (outline ctx)) \<Longrightarrow> n \<in> set (entry_nodes ctx e) \<Longrightarrow>
   tn_id n \<in> tn_id ` set (ps_nodes (plan_chapters ctx))"
  using foldl_addNode_ids [OF index_ok_init, of "concat (map (entry_nodes ctx) (flattenOutline (outline ctx)))"]
  by (auto simp: plan_chapters_eq)

lemma chapters_distinct: "distinct (map tn_id (ps_nodes (plan_chapters ctx)))"
  using foldl_addNode_distinct [OF index_ok_init, of "concat (map (entry_nodes ctx) (flattenOutline (outline ctx)))"]
  by (simp add: plan_chapters_eq init_state_def)

lemma chapters_edges:
  "ps_edges (plan_chapters ctx) = concat (map (entry_edges ctx) (flattenOutline (outline ctx)))"
  by (simp add: plan_chapters_eq)

lemma foldl_push_edge:
  "foldl (\<lambda>s n. push_edge s (f n) b w) st ns =
     st\<lparr>ps_edges := ps_edges st @ map (\<lambda>n. mk_edge (f n) b w) ns\<rparr>"
  by (induction ns arbitrary: st) (simp_all add: push_edge_alt)

lemma sink_nodes:
  "index_ok st \<Longrightarrow>
   ps_nodes (add_document_sink st) =
     (let A = filter (\<lambda>n. tn_type n = Assemble) (ps_nodes st) in
      if A = [] \<or> finalAssembleId \<in> tn_id ` set (ps_nodes st) then ps_nodes st
      else ps_nodes st @ [final_node A])"
  by (simp add: add_document_sink_def Let_def foldl_push_edge nodes_addNode final_node_def)

lemma sink_edges:
  "ps_edges (add_document_sink st) =
     ps_edges st @ map (\<lambda>n. mk_edge (tn_id n) finalAssembleId reason_merge)
                     (filter (\<lambda>n. tn_type n = Assemble) (ps_nodes st))"
  by (simp add: add_document_sink_def Let_def foldl_push_edge ps_edges_addNode)

lemma dag_nodes:
  "nodes (buildDag ctx) =
     (let A = filter (\<lambda>n. tn_type n = Assemble) (ps_nodes (plan_chapters ctx)) in
      if A = [] \<or> finalAssembleId \<in> tn_id ` set (ps_nodes (plan_chapters ctx))
      then ps_nodes (plan_chapters ctx)
      else ps_nodes (plan_chapters ctx) @ [final_node A])"
  by (simp add: buildDag_def Let_def sink_nodes [OF chapters_index_ok, unfolded Let_def])

lemma dag_edges:
  "edges (buildDag ctx) =
     concat (map (entry_edges ctx) (flattenOutline (outline ctx))) @
     map (\<lambda>n. mk_edge (tn_id n) finalAssembleId reason_merge)
       (filter (\<lambda>n. tn_type n = Assemble) (ps_nodes (plan_chapters ctx)))"
  by (simp add: buildDag_def Let_def sink_edges chapters_edges)

lemma chapters_subset_dag: "set (ps_nodes (plan_chapters ctx)) \<subseteq> set (nodes (buildDag ctx))"
  by (auto simp: dag_nodes Let_def)

lemma dag_node_cases:
  "n \<in> set (nodes (buildDag ctx)) \<Longrightarrow>
   n \<in> set (ps_nodes (plan_chapters ctx)) \<or>
   (n = final_node (filter (\<lambda>n. tn_type n = Assemble) (ps_nodes (plan_chapters ctx))) \<and>
    finalAssembleId \<notin> tn_id ` set (ps_nodes (plan_chapters ctx)))"
  by (auto simp: dag_nodes Let_def split: if_splits)

lemma entry_nodes_stage: "n \<in> set (entry_nodes ctx e) \<Longrightarrow> stage_of ctx e n"
proof -
  assume "n \<in> set (entry_nodes ctx e)"
  then consider "truthy_str (fixed_content (node e))" "n = materialize_node e"
    | "truthy_str (fixed_content (node e))" "n = fixed_assemble_node e"
    | "\<not> truthy_str (fixed_content (node e))" "n = prepare_node ctx e"
    | "\<not> truthy_str (fixed_content (node e))" "shouldCreateRetrieve ctx" "n = retrieve_node ctx e"
    | "\<not> truthy_str (fixed_content (node e))" "n = write_node ctx e"
    | "\<not> truthy_str (fixed_content (node e))" "n = verify_node ctx e"
    | "\<not> truthy_str (fixed_content (node e))" "n = assemble_node ctx e"
    by (auto simp: entry_nodes_def split: if_splits)
  then show ?thesis
  proof cases
    case 1 then show ?thesis by (simp add: stage_of_def materialize_node_def)
  next
    case 2 then show ?thesis by (simp add: stage_of_def fixed_assemble_node_def)
  next
    case 3 then show ?thesis by (simp add: stage_of_def prepare_node_def)
  next
    case 4 then show ?thesis by (simp add: stage_of_def retrieve_node_def)
  next
    case 5 then show ?thesis by (simp add: stage_of_def write_node_def lastDependency_def)
  next
    case 6 then show ?thesis by (simp add: stage_of_def verify_node_def)
  next
    case 7 then show ?thesis by (simp add: stage_of_def assemble_node_def)
  qed
qed

lemma chapter_node_stage:
  "n \<in> set (ps_nodes (plan_chapters ctx)) \<Longrightarrow>
   \<exists>e \<in> set (flattenOutline (outline ctx)). stage_of ctx e n"
  using chapters_origin entry_nodes_stage by blast


lemma stage_materialize:
  "stage_of ctx e n \<Longrightarrow> tn_id n = task_id ''materialize'' c \<Longrightarrow>
   tn_type n = Materialize_fixed \<and> tn_dependencies n = [] \<and>
   truthy_str (fixed_content (node e)) \<and> str_of (chapter_number (node e)) = str_of c"
  by (auto simp: stage_of_def Let_def task_id_def)

lemma stage_prepare:
  "stage_of ctx e n \<Longrightarrow> tn_id n = task_id ''prepare'' c \<Longrightarrow>
   tn_type n = Prepare \<and> tn_dependencies n = [] \<and>
   \<not> truthy_str (fixed_content (node e)) \<and> str_of (chapter_number (node e)) = str_of c"
  by (auto simp: stage_of_def Let_def task_id_def)

lemma stage_retrieve:
  "stage_of ctx e n \<Longrightarrow> tn_id n = task_id ''retrieve'' c \<Longrightarrow>
   tn_type n = Retrieve \<and> tn_dependencies n = [task_id ''prepare'' c] \<and>
   shouldCreateRetrieve ctx \<and>
   \<not> truthy_str (fixed_content (node e)) \<and> str_of (chapter_number (node e)) = str_of c"
  by (auto simp: stage_of_def Let_def task_id_def)

lemma stage_write:
  "stage_of ctx e n \<Longrightarrow> tn_id n = task_id ''write'' c \<Longrightarrow>
   tn_type n = Write \<and>
   tn_dependencies n =
     [if shouldCreateRetrieve ctx then task_id ''retrieve'' c else task_id ''prepare'' c] \<and>
   \<not> truthy_str (fixed_content (node e)) \<and> str_of (chapter_number (node e)) = str_of c"
  by (auto simp: stage_of_def Let_def task_id_def)

lemma stage_verify:
  "stage_of ctx e n \<Longrightarrow> tn_id n = task_id ''verify'' c \<Longrightarrow>
   tn_type n = Verify \<and> tn_dependencies n = [task_id ''write'' c] \<and>
   \<not> truthy_str (fixed_content (node e)) \<and> str_of (chapter_number (node e)) = str_of c"
  by (auto simp: stage_of_def Let_def task_id_def)

lemma stage_assemble:
  "stage_of ctx e n \<Longrightarrow> tn_id n = task_id ''assemble'' c \<Longrightarrow>
   tn_type n = Assemble \<and> str_of (chapter_number (node e)) = str_of c \<and>
   tn_dependencies n =
     [if truthy_str (fixed_content (node e)) then task_id ''materialize'' c
      else task_id ''verify'' c]"
  by (auto simp: stage_of_def Let_def task_id_def)

lemma stage_type_id:
  "stage_of ctx e n \<Longrightarrow>
   tn_id n = task_id (case tn_type n of Materialize_fixed \<Rightarrow> ''materialize''
     | Prepare \<Rightarrow> ''prepare'' | Retrieve \<Rightarrow> ''retrieve'' | Write \<Rightarrow> ''write''
     | Verify \<Rightarrow> ''verify'' | Assemble \<Rightarrow> ''assemble'') (chapter_number (node e))"
  by (auto simp: stage_of_def Let_def)

lemma planned_node:
  assumes "e \<in> set (flattenOutline (outline ctx))" and "n0 \<in> set (entry_nodes ctx e)"
  obtains n e' where "n \<in> set (ps_nodes (plan_chapters ctx))" and "tn_id n = tn_id n0"
    and "e' \<in> set (flattenOutline (outline ctx))" and "stage_of ctx e' n"
proof -
  from chapters_ids [OF assms] obtain n
    where n: "n \<in> set (ps_nodes (plan_chapters ctx))" "tn_id n = tn_id n0" by force
  from chapter_node_stage [OF n(1)] obtain e'
    where "e' \<in> set (flattenOutline (outline ctx))" "stage_of ctx e' n" by blast
  with n that show thesis by blast
qed


lemma should_iff:
  "shouldCreateRetrieve ctx = (\<exists>a \<in> set (assetsIndex ctx). embed_ready a \<or> table_ready a)"
  by (auto simp: shouldCreateRetrieve_def hasEmbedReady_def hasTableReady_def list_ex_iff)

lemma final_node_simps:
  "tn_id (final_node A) = finalAssembleId" "tn_type (final_node A) = Assemble"
  "tn_dependencies (final_node A) = map tn_id A" "tn_outlineId (final_node A) = None"
  by (simp_all add: final_node_def)

lemma dag_distinct: "distinct (map tn_id (nodes (buildDag ctx)))"
  using chapters_distinct [of ctx] by (auto simp: dag_nodes Let_def final_node_simps)

lemma no_retrieve_without_assets:
  assumes "\<not> shouldCreateRetrieve ctx" and "n \<in> set (nodes (buildDag ctx))"
  shows "tn_type n \<noteq> Retrieve"
proof -
  from dag_node_cases [OF assms(2)] show ?thesis
  proof
    assume "n \<in> set (ps_nodes (plan_chapters ctx))"
    from chapter_node_stage [OF this] obtain e where "stage_of ctx e n" by blast
    with assms(1) show ?thesis by (auto simp: stage_of_def Let_def)
  next
    assume "n = final_node (filter (\<lambda>n. tn_type n = Assemble) (ps_nodes (plan_chapters ctx))) \<and>
      finalAssembleId \<notin> tn_id ` set (ps_nodes (plan_chapters ctx))"
    then show ?thesis by (simp add: final_node_simps)
  qed
qed

lemma write_node_dependency:
  assumes "n \<in> set (nodes (buildDag ctx))" and "tn_type n = Write"
  shows "tn_dependencies n =
           [if shouldCreateRetrieve ctx then task_id ''retrieve'' (tn_outlineId n)
            else task_id ''prepare'' (tn_outlineId n)] \<and>
         (\<exists>m \<in> set (nodes (buildDag ctx)).
            tn_id m = task_id ''prepare'' (tn_outlineId n) \<and> tn_type m = Prepare)"
proof -
  from dag_node_cases [OF assms(1)] assms(2)
  have "n \<in> set (ps_nodes (plan_chapters ctx))" by (auto simp: final_node_simps)
  from chapters_origin [OF this] obtain e
    where e: "e \<in> set (flattenOutline (outline ctx))" and ne: "n \<in> set (entry_nodes ctx e)"
    by blast
  from entry_nodes_stage [OF ne] assms(2)
  have st: "tn_outlineId n = chapter_number (node e)"
    "\<not> truthy_str (fixed_content (node e))"
    "tn_dependencies n =
       [if shouldCreateRetrieve ctx then task_id ''retrieve'' (chapter_number (node e))
        else task_id ''prepare'' (chapter_number (node e))]"
    by (auto simp: stage_of_def Let_def)
  have "prepare_node ctx e \<in> set (entry_nodes ctx e)"
    using st(2) by (simp add: entry_nodes_def)
  from planned_node [OF e this] obtain m e'
    where m: "m \<in> set (ps_nodes (plan_chapters ctx))" "tn_id m = tn_id (prepare_node ctx e)"
      "stage_of ctx e' m" by blast
  have mid: "tn_id m = task_id ''prepare'' (chapter_number (node e))"
    using m(2) by (simp add: prepare_node_def)
  from stage_prepare [OF m(3) mid] have "tn_type m = Prepare" by simp
  moreover have "m \<in> set (nodes (buildDag ctx))" using m(1) chapters_subset_dag by blast
  ultimately show ?thesis using st mid by auto
qed

lemma retrieve_for_chapter:
  assumes "shouldCreateRetrieve ctx" and "e \<in> set (flattenOutline (outline ctx))"
    and "\<not> truthy_str (fixed_content (node e))"
  shows "(\<exists>r \<in> set (nodes (buildDag ctx)).
            tn_id r = task_id ''retrieve'' (chapter_number (node e)) \<and> tn_type r = Retrieve \<and>
            tn_dependencies r = [task_id ''prepare'' (chapter_number (node e))]) \<and>
         (\<exists>w \<in> set (nodes (buildDag ctx)).
            tn_id w = task_id ''write'' (chapter_number (node e)) \<and> tn_type w = Write \<and>
            tn_dependencies w = [task_id ''retrieve'' (chapter_number (node e))])"
proof
  have "retrieve_node ctx e \<in> set (entry_nodes ctx e)"
    using assms by (simp add: entry_nodes_def)
  from planned_node [OF assms(2) this] obtain r e'
    where r: "r \<in> set (ps_nodes (plan_chapters ctx))" "tn_id r = tn_id (retrieve_node ctx e)"
      "stage_of ctx e' r" by blast
  have rid: "tn_id r = task_id ''retrieve'' (chapter_number (node e))"
    using r(2) by (simp add: retrieve_node_def)
  from stage_retrieve [OF r(3) rid] r(1) rid chapters_subset_dag [of ctx]
  show "\<exists>r \<in> set (nodes (buildDag ctx)).
            tn_id r = task_id ''retrieve'' (chapter_number (node e)) \<and> tn_type r = Retrieve \<and>
            tn_dependencies r = [task_id ''prepare'' (chapter_number (node e))]"
    by blast
next
  have "write_node ctx e \<in> set (entry_nodes ctx e)"
    using assms by (simp add: entry_nodes_def)
  from planned_node [OF assms(2) this] obtain x e'
    where x: "x \<in> set (ps_nodes (plan_chapters ctx))" "tn_id x = tn_id (write_node ctx e)"
      "stage_of ctx e' x" by blast
  have xid: "tn_id x = task_id ''write'' (chapter_number (node e))"
    using x(2) by (simp add: write_node_def)
  from stage_write [OF x(3) xid] assms(1)
  have "tn_type x = Write"
    "tn_dependencies x = [task_id ''retrieve'' (chapter_number (node e))]" by simp_all
  with x(1) xid chapters_subset_dag [of ctx]
  show "\<exists>w \<in> set (nodes (buildDag ctx)).
            tn_id w = task_id ''write'' (chapter_number (node e)) \<and> tn_type w = Write \<and>
            tn_dependencies w = [task_id ''retrieve'' (chapter_number (node e))]"
    by blast
qed

text \<open>
  Claim C6. If no asset of the index has \<open>embed_ready\<close> or \<open>table_ready\<close>, the DAG has no
  \<open>retrieve\<close> node and the dependencies of every \<open>write\<close> node are exactly the
  \<open>prepare\<close> node of its chapter, which is in the DAG. If some asset has either flag,
  every entry without fixed content has a \<open>retrieve\<close> node depending on its \<open>prepare\<close>
  node and a \<open>write\<close> node depending on that \<open>retrieve\<close> node, and every \<open>write\<close> node
  depends on the \<open>retrieve\<close> node of its chapter. The test is one disjunction over all
  assets of the project.
\<close>

theorem retrieval_conditionality:
  "(\<not> (\<exists>a \<in> set (assetsIndex ctx). embed_ready a \<or> table_ready a) \<longrightarrow>
      (\<forall>n \<in> set (nodes (buildDag ctx)). tn_type n \<noteq> Retrieve) \<and>
      (\<forall>n \<in> set (nodes (buildDag ctx)). tn_type n = Write \<longrightarrow>
         tn_dependencies n = [task_id ''prepare'' (tn_outlineId n)] \<and>
         (\<exists>m \<in> set (nodes (buildDag ctx)).
            tn_id m = task_id ''prepare'' (tn_outlineId n) \<and> tn_type m = Prepare))) \<and>
   ((\<exists>a \<in> set (assetsIndex ctx). embed_ready a \<or> table_ready a) \<longrightarrow>
      (\<forall>e \<in> set (flattenOutline (outline ctx)). \<not> truthy_str (fixed_content (node e)) \<longrightarrow>
         (\<exists>r \<in> set (nodes (buildDag ctx)).
            tn_id r = task_id ''retrieve'' (chapter_number (node e)) \<and> tn_type r = Retrieve \<and>
            tn_dependencies r = [task_id ''prepare'' (chapter_number (node e))]) \<and>
         (\<exists>w \<in> set (nodes (buildDag ctx)).
            tn_id w = task_id ''write'' (chapter_number (node e)) \<and> tn_type w = Write \<and>
            tn_dependencies w = [task_id ''retrieve'' (chapter_number (node e))])) \<and>
      (\<forall>n \<in> set (nodes (buildDag ctx)). tn_type n = Write \<longrightarrow>
         tn_dependencies n = [task_id ''retrieve'' (tn_outlineId n)]))"
proof (cases "shouldCreateRetrieve ctx")
  case True
  then have "\<exists>a \<in> set (assetsIndex ctx). embed_ready a \<or> table_ready a"
    by (simp add: should_iff)
  moreover have "\<forall>e \<in> set (flattenOutline (outline ctx)). \<not> truthy_str (fixed_content (node e)) \<longrightarrow>
         (\<exists>r \<in> set (nodes (buildDag ctx)).
            tn_id r = task_id ''retrieve'' (chapter_number (node e)) \<and> tn_type r = Retrieve \<and>
            tn_dependencies r = [task_id ''prepare'' (chapter_number (node e))]) \<and>
         (\<exists>w \<in> set (nodes (buildDag ctx)).
            tn_id w = task_id ''write'' (chapter_number (node e)) \<and> tn_type w = Write \<and>
            tn_dependencies w = [task_id ''retrieve'' (chapter_number (node e))])"
    using retrieve_for_chapter [OF True] by blast
  moreover have "\<forall>n \<in> set (nodes (buildDag ctx)). tn_type n = Write \<longrightarrow>
         tn_dependencies n = [task_id ''retrieve'' (tn_outlineId n)]"
    using write_node_dependency [of _ ctx] True by simp
  ultimately show ?thesis by blast
next
  case False
  then have no: "\<not> (\<exists>a \<in> set (assetsIndex ctx). embed_ready a \<or> table_ready a)"
    by (simp add: should_iff)
  have "\<forall>n \<in> set (nodes (buildDag ctx)). tn_type n \<noteq> Retrieve"
    using no_retrieve_without_assets [OF False] by blast
  moreover have "\<forall>n \<in> set (nodes (buildDag ctx)). tn_type n = Write \<longrightarrow>
         tn_dependencies n = [task_id ''prepare'' (tn_outlineId n)] \<and>
         (\<exists>m \<in> set (nodes (buildDag ctx)).
            tn_id m = task_id ''prepare'' (tn_outlineId n) \<and> tn_type m = Prepare)"
    using write_node_dependency [of _ ctx] False by simp
  ultimately show ?thesis using no by blast
qed

subsection \<open>Claims about the planner\<close>

lemmas example_defs = ctx_no_assets_def ctx_table_ready_def ctx_empty_def example_context_def
  plain_chapter_def fixed_chapter_def malformed_chapter_def mk_chapter_def asset_def entry_def
  flattenOutline_def

lemma flat_example:
  "flattenOutline (outline ctx_no_assets) = [entry plain_chapter, entry fixed_chapter, entry malformed_chapter]"
  "flattenOutline (outline ctx_table_ready) = [entry plain_chapter, entry fixed_chapter, entry malformed_chapter]"
  by (simp_all add: example_defs)

theorem retrieval_conditionality_witness:
  "\<not> (\<exists>a \<in> set (assetsIndex ctx_no_assets). embed_ready a \<or> table_ready a) \<and>
   list_all (\<lambda>n. tn_type n \<noteq> Retrieve) (nodes (buildDag ctx_no_assets)) \<and>
   (\<exists>a \<in> set (assetsIndex ctx_table_ready). embed_ready a \<or> table_ready a) \<and>
   entry plain_chapter \<in> set (flattenOutline (outline ctx_table_ready)) \<and>
   \<not> truthy_str (fixed_content (node (entry plain_chapter))) \<and>
   (\<exists>w \<in> set (nodes (buildDag ctx_table_ready)).
      tn_id w = ''write:1'' \<and> tn_type w = Write \<and> tn_dependencies w = [''retrieve:1''])"
proof -
  have a: "\<not> (\<exists>a \<in> set (assetsIndex ctx_no_assets). embed_ready a \<or> table_ready a)"
    by (simp add: example_defs)
  have b: "\<exists>a \<in> set (assetsIndex ctx_table_ready). embed_ready a \<or> table_ready a"
    by (simp add: example_defs)
  have c: "entry plain_chapter \<in> set (flattenOutline (outline ctx_table_ready))"
    by (simp add: flat_example)
  have d: "\<not> truthy_str (fixed_content (node (entry plain_chapter)))"
    by (simp add: example_defs truthy_str_def)
  have e: "task_id ''write'' (chapter_number (node (entry plain_chapter))) = ''write:1''"
    "task_id ''retrieve'' (chapter_number (node (entry plain_chapter))) = ''retrieve:1''"
    by (simp_all add: example_defs task_id_def str_of_def)
  from retrieval_conditionality [of ctx_no_assets] a
  have "\<forall>n \<in> set (nodes (buildDag ctx_no_assets)). tn_type n \<noteq> Retrieve" by blast
  moreover from retrieval_conditionality [of ctx_table_ready] b c d
  have "\<exists>w \<in> set (nodes (buildDag ctx_table_ready)).
      tn_id w = task_id ''write'' (chapter_number (node (entry plain_chapter))) \<and> tn_type w = Write \<and>
      tn_dependencies w = [task_id ''retrieve'' (chapter_number (node (entry plain_chapter)))]"
    by blast
  ultimately show ?thesis using a b c d by (simp add: e list_all_iff)
qed

lemma walk_nonempty: "ol \<noteq> [] \<Longrightarrow> walk ol parent \<noteq> []"
  by (cases ol; cases "hd ol") auto

lemma walk_top: "n \<in> set ol \<Longrightarrow> \<lparr>node = n, parentId = parent\<rparr> \<in> set (walk ol parent)"
proof (induction ol)
  case Nil
  then show ?case by simp
next
  case (Cons a ol)
  then show ?case by (cases a) auto
qed

lemma final_assemble_node:
  assumes "e \<in> set (flattenOutline (outline ctx))"
  obtains a where "a \<in> set (ps_nodes (plan_chapters ctx))"
    and "tn_id a = task_id ''assemble'' (chapter_number (node e))" and "tn_type a = Assemble"
proof -
  have "\<exists>n0 \<in> set (entry_nodes ctx e). tn_id n0 = task_id ''assemble'' (chapter_number (node e))"
    by (simp add: entry_nodes_def fixed_assemble_node_def assemble_node_def)
  then obtain n0 where n0: "n0 \<in> set (entry_nodes ctx e)"
    "tn_id n0 = task_id ''assemble'' (chapter_number (node e))" by blast
  from planned_node [OF assms n0(1)] obtain a e'
    where a: "a \<in> set (ps_nodes (plan_chapters ctx))" "tn_id a = tn_id n0" "stage_of ctx e' a"
    by blast
  from stage_assemble [OF a(3)] a(2) n0(2) have "tn_type a = Assemble" by simp
  with a n0(2) that show thesis by simp
qed

lemma entry_ids_planned:
  assumes e: "e \<in> set (flattenOutline (outline ctx))"
  shows "set (map (\<lambda>pre. task_id pre (chapter_number (node e)))
             (if truthy_str (fixed_content (node e)) then [''materialize'', ''assemble'']
              else [''prepare'', ''write'', ''verify'', ''assemble'']))
        \<subseteq> tn_id ` set (nodes (buildDag ctx))"
proof -
  have ids: "tn_id n \<in> tn_id ` set (nodes (buildDag ctx))" if "n \<in> set (entry_nodes ctx e)" for n
    using chapters_ids [OF e that] chapters_subset_dag [of ctx] by blast
  show ?thesis
  proof (cases "truthy_str (fixed_content (node e))")
    case True
    then have "materialize_node e \<in> set (entry_nodes ctx e)"
      "fixed_assemble_node e \<in> set (entry_nodes ctx e)"
      by (simp_all add: entry_nodes_def)
    from this [THEN ids] True show ?thesis
      by (simp add: materialize_node_def fixed_assemble_node_def)
  next
    case False
    then have "prepare_node ctx e \<in> set (entry_nodes ctx e)"
      "write_node ctx e \<in> set (entry_nodes ctx e)"
      "verify_node ctx e \<in> set (entry_nodes ctx e)"
      "assemble_node ctx e \<in> set (entry_nodes ctx e)"
      by (simp_all add: entry_nodes_def)
    from this [THEN ids] False show ?thesis
      by (simp add: prepare_node_def write_node_def verify_node_def assemble_node_def)
  qed
qed

lemmas eval_defs = buildDag_def plan_chapters_def add_document_sink_def plan_entry_def
  Let_def addNode_def push_edge_def truthy_str_def shouldCreateRetrieve_def hasEmbedReady_def
  hasTableReady_def materialize_node_def fixed_assemble_node_def prepare_node_def
  retrieve_node_def write_node_def verify_node_def assemble_node_def final_node_def
  task_id_def str_of_def finalAssembleId_def lastDependency_def

lemma foldl_addNode_fresh:
  "index_ok st \<Longrightarrow> distinct (map tn_id (ps_nodes st) @ map tn_id ns) \<Longrightarrow>
   ps_nodes (foldl addNode st ns) = ps_nodes st @ ns"
proof (induction ns arbitrary: st)
  case Nil
  show ?case by simp
next
  case (Cons n ns)
  from Cons.prems have fresh: "tn_id n \<notin> tn_id ` set (ps_nodes st)" by auto
  with Cons.prems(1) have step: "ps_nodes (addNode st n) = ps_nodes st @ [n]"
    by (simp add: nodes_addNode)
  from Cons.prems(2) have "distinct (map tn_id (ps_nodes (addNode st n)) @ map tn_id ns)"
    by (simp add: step)
  from Cons.IH [OF index_ok_addNode [OF Cons.prems(1)] this] show ?case
    by (simp add: step)
qed

lemma chapters_nodes_fresh:
  assumes "distinct (map tn_id (concat (map (entry_nodes ctx) (flattenOutline (outline ctx)))))"
  shows "ps_nodes (plan_chapters ctx) =
         concat (map (entry_nodes ctx) (flattenOutline (outline ctx)))"
  using foldl_addNode_fresh [OF index_ok_init,
      of "concat (map (entry_nodes ctx) (flattenOutline (outline ctx)))"] assms
  by (simp add: plan_chapters_eq init_state_def)

lemma entry_nodes_ids:
  "map tn_id (entry_nodes ctx e) =
     (if truthy_str (fixed_content (node e))
      then [task_id ''materialize'' (chapter_number (node e)),
            task_id ''assemble'' (chapter_number (node e))]
      else task_id ''prepare'' (chapter_number (node e)) #
             (if shouldCreateRetrieve ctx then [task_id ''retrieve'' (chapter_number (node e))]
              else []) @
             [task_id ''write'' (chapter_number (node e)),
              task_id ''verify'' (chapter_number (node e)),
              task_id ''assemble'' (chapter_number (node e))])"
  by (simp add: entry_nodes_def materialize_node_def fixed_assemble_node_def prepare_node_def
        retrieve_node_def write_node_def verify_node_def assemble_node_def)

lemma entry_nodes_assemble:
  "map tn_id (filter (\<lambda>n. tn_type n = Assemble) (entry_nodes ctx e)) =
     [task_id ''assemble'' (chapter_number (node e))]"
  by (simp add: entry_nodes_def materialize_node_def fixed_assemble_node_def prepare_node_def
        retrieve_node_def write_node_def verify_node_def assemble_node_def)

lemma dag_ids_fresh:
  assumes es: "flattenOutline (outline ctx) = es" and ne: "es \<noteq> []"
    and d: "distinct (concat (map (\<lambda>e. map tn_id (entry_nodes ctx e)) es) @ [finalAssembleId])"
  shows "map tn_id (nodes (buildDag ctx)) =
           concat (map (\<lambda>e. map tn_id (entry_nodes ctx e)) es) @ [finalAssembleId]"
    and "tn_dependencies (last (nodes (buildDag ctx))) =
           map (\<lambda>e. task_id ''assemble'' (chapter_number (node e))) es"
proof -
  define N where "N = concat (map (entry_nodes ctx) es)"
  define A where "A = filter (\<lambda>n. tn_type n = Assemble) N"
  have ids: "map tn_id N = concat (map (\<lambda>e. map tn_id (entry_nodes ctx e)) es)"
    by (simp add: N_def map_concat o_def)
  from d have "distinct (map tn_id N)" and no: "finalAssembleId \<notin> tn_id ` set N"
    unfolding ids [symmetric] by auto
  then have N: "ps_nodes (plan_chapters ctx) = N"
    using chapters_nodes_fresh [of ctx] by (simp add: es N_def)
  have "map tn_id A = concat (map (\<lambda>e. map tn_id (filter (\<lambda>n. tn_type n = Assemble)
                                                     (entry_nodes ctx e))) es)"
    by (simp add: A_def N_def filter_concat map_concat o_def)
  then have A: "map tn_id A = map (\<lambda>e. task_id ''assemble'' (chapter_number (node e))) es"
    by (simp add: entry_nodes_assemble)
  with ne have "A \<noteq> []" by auto
  with no have dag: "nodes (buildDag ctx) = N @ [final_node A]"
    by (simp add: dag_nodes Let_def N A_def)
  show "map tn_id (nodes (buildDag ctx)) =
           concat (map (\<lambda>e. map tn_id (entry_nodes ctx e)) es) @ [finalAssembleId]"
    by (simp add: dag ids final_node_simps)
  show "tn_dependencies (last (nodes (buildDag ctx))) =
           map (\<lambda>e. task_id ''assemble'' (chapter_number (node e))) es"
    by (simp add: dag final_node_simps A)
qed

text \<open>
  Claim C5 fails on the code. \<open>buildDag\<close> has no check for a missing chapter number or
  title and skips nothing (lemma \<open>entry_ids_planned\<close>). An outline entry that lacks both is
  planned like a well-formed one, under ids spelled with \<open>undefined\<close>, whether it stands
  at the top level of the outline or below a well-formed chapter, and the document sink
  depends on its \<open>assemble:undefined\<close>. The template parser and the orchestrator's
  traversals do skip such entries; the planner lacks their guard.
\<close>

theorem malformed_entry_is_planned:
  "chapter_number malformed_chapter = None \<and> title malformed_chapter = None \<and>
   map tn_id (nodes (buildDag (example_context [plain_chapter, malformed_chapter] []))) =
     [''prepare:1'', ''write:1'', ''verify:1'', ''assemble:1'',
      ''prepare:undefined'', ''write:undefined'', ''verify:undefined'', ''assemble:undefined'',
      ''assemble:document''] \<and>
   tn_dependencies (last (nodes (buildDag (example_context [plain_chapter, malformed_chapter] [])))) =
     [''assemble:1'', ''assemble:undefined''] \<and>
   map tn_id (nodes (buildDag (example_context [parent_chapter] []))) =
     [''prepare:1'', ''write:1'', ''verify:1'', ''assemble:1'',
      ''prepare:undefined'', ''write:undefined'', ''verify:undefined'', ''assemble:undefined'',
      ''assemble:document'']"
proof -
  define ctx1 where "ctx1 = example_context [plain_chapter, malformed_chapter] []"
  define ctx2 where "ctx2 = example_context [parent_chapter] []"
  have no: "\<not> shouldCreateRetrieve ctx1" "\<not> shouldCreateRetrieve ctx2"
    by (simp_all add: ctx1_def ctx2_def example_context_def shouldCreateRetrieve_def
          hasEmbedReady_def hasTableReady_def)
  have flat1: "flattenOutline (outline ctx1) = [entry plain_chapter, entry malformed_chapter]"
    by (simp add: ctx1_def example_defs)
  have flat2: "flattenOutline (outline ctx2) =
      [entry parent_chapter, \<lparr>node = malformed_chapter, parentId = Some ''1''\<rparr>]"
    by (simp add: ctx2_def example_defs parent_chapter_def)
  have fields: "chapter_number malformed_chapter = None" "title malformed_chapter = None"
    "fixed_content malformed_chapter = None"
    "chapter_number plain_chapter = Some ''1''" "fixed_content plain_chapter = None"
    "chapter_number parent_chapter = Some ''1''" "fixed_content parent_chapter = None"
    by (simp_all add: malformed_chapter_def plain_chapter_def parent_chapter_def mk_chapter_def)
  note ev = entry_nodes_ids no fields entry_def truthy_str_def task_id_def str_of_def
    finalAssembleId_def
  have a: "map tn_id (nodes (buildDag ctx1)) =
     [''prepare:1'', ''write:1'', ''verify:1'', ''assemble:1'',
      ''prepare:undefined'', ''write:undefined'', ''verify:undefined'', ''assemble:undefined'',
      ''assemble:document'']"
    by (subst dag_ids_fresh(1) [OF flat1]) (simp_all add: ev)
  have b: "tn_dependencies (last (nodes (buildDag ctx1))) = [''assemble:1'', ''assemble:undefined'']"
    by (subst dag_ids_fresh(2) [OF flat1]) (simp_all add: ev)
  have c: "map tn_id (nodes (buildDag ctx2)) =
     [''prepare:1'', ''write:1'', ''verify:1'', ''assemble:1'',
      ''prepare:undefined'', ''write:undefined'', ''verify:undefined'', ''assemble:undefined'',
      ''assemble:document'']"
    by (subst dag_ids_fresh(1) [OF flat2]) (simp_all add: ev)
  from a b c fields(1,2) show ?thesis unfolding ctx1_def ctx2_def by simp
qed

lemma stage_not_document:
  "stage_of ctx e n \<Longrightarrow> str_of (chapter_number (node e)) \<noteq> ''document'' \<Longrightarrow>
   tn_id n \<noteq> finalAssembleId"
  by (auto simp: stage_of_def Let_def task_id_def finalAssembleId_def)

lemma stage_deps_not_sink:
  "stage_of ctx e n \<Longrightarrow> finalAssembleId \<notin> set (tn_dependencies n)"
  by (auto simp: stage_of_def Let_def task_id_def finalAssembleId_def split: if_splits)

lemma entry_edges_not_from_sink:
  "ed \<in> set (entry_edges ctx e) \<Longrightarrow> e_from ed \<noteq> finalAssembleId"
  by (auto simp: entry_edges_def Let_def mk_edge_def task_id_def finalAssembleId_def
        lastDependency_def split: if_splits)

lemma entry_edge_out:
  "n \<in> set (entry_nodes ctx e) \<Longrightarrow> tn_type n \<noteq> Assemble \<Longrightarrow>
   \<exists>ed \<in> set (entry_edges ctx e). e_from ed = tn_id n"
  by (auto simp: entry_nodes_def entry_edges_def Let_def mk_edge_def lastDependency_def
        materialize_node_def fixed_assemble_node_def prepare_node_def retrieve_node_def
        write_node_def verify_node_def assemble_node_def split: if_splits)

text \<open>
  Claim C7, as amended. For every outline that has at least one entry and no entry whose
  chapter number is \<open>document\<close>, the node list of \<open>buildDag\<close> ends with one
  \<open>assemble:document\<close> node that occurs nowhere else; its dependencies are the ids of
  the per-chapter assemble nodes, which are exactly the ids \<open>assemble:<chapter>\<close> of the
  flattened entries; every per-chapter assemble node has an edge to it; no node lists
  it as a dependency, no edge leaves it, and every other node has an outgoing edge. (The
  empty outline gets no sink at all: the code adds it only if there is an assemble
  node.)
\<close>

theorem document_sink:
  assumes nonempty: "outline ctx \<noteq> []"
    and nodoc: "\<forall>e \<in> set (flattenOutline (outline ctx)).
                  str_of (chapter_number (node e)) \<noteq> ''document''"
  shows "\<exists>chs s. nodes (buildDag ctx) = chs @ [s] \<and>
           tn_id s = ''assemble:document'' \<and> tn_type s = Assemble \<and>
           ''assemble:document'' \<notin> tn_id ` set chs \<and>
           tn_dependencies s = map tn_id (filter (\<lambda>n. tn_type n = Assemble) chs) \<and>
           set (tn_dependencies s) =
             (\<lambda>e. task_id ''assemble'' (chapter_number (node e))) `
               set (flattenOutline (outline ctx)) \<and>
           (\<forall>a \<in> set chs. tn_type a = Assemble \<longrightarrow>
              (\<exists>ed \<in> set (edges (buildDag ctx)).
                 e_from ed = tn_id a \<and> e_to ed = ''assemble:document'')) \<and>
           (\<forall>n \<in> set (nodes (buildDag ctx)). ''assemble:document'' \<notin> set (tn_dependencies n)) \<and>
           (\<forall>ed \<in> set (edges (buildDag ctx)). e_from ed \<noteq> ''assemble:document'') \<and>
           (\<forall>n \<in> set chs. \<exists>ed \<in> set (edges (buildDag ctx)). e_from ed = tn_id n)"
proof -
  define fl where "fl = flattenOutline (outline ctx)"
  define S where "S = ps_nodes (plan_chapters ctx)"
  define A where "A = filter (\<lambda>n. tn_type n = Assemble) S"
  define s where "s = final_node A"
  have sink_id: "finalAssembleId = ''assemble:document''" by (simp add: finalAssembleId_def)
  have stage: "\<exists>e \<in> set fl. stage_of ctx e n" if "n \<in> set S" for n
    using chapter_node_stage that by (simp add: S_def fl_def)
  have not_sink: "finalAssembleId \<notin> tn_id ` set S"
  proof
    assume "finalAssembleId \<in> tn_id ` set S"
    then obtain n where n: "n \<in> set S" "tn_id n = finalAssembleId" by force
    from stage [OF n(1)] obtain e where "e \<in> set fl" "stage_of ctx e n" by blast
    with nodoc stage_not_document n(2) show False by (auto simp: fl_def)
  qed
  have fl_ne: "fl \<noteq> []"
    using nonempty walk_nonempty by (simp add: fl_def flattenOutline_def)
  have assemble_in: "task_id ''assemble'' (chapter_number (node e)) \<in> tn_id ` set A"
    if "e \<in> set fl" for e
  proof -
    from that have "e \<in> set (flattenOutline (outline ctx))" by (simp add: fl_def)
    from final_assemble_node [OF this] obtain a
      where "a \<in> set S" "tn_id a = task_id ''assemble'' (chapter_number (node e))"
        "tn_type a = Assemble" by (auto simp: S_def)
    then show ?thesis by (force simp: A_def)
  qed
  have A_ne: "A \<noteq> []"
  proof -
    from fl_ne obtain e where "e \<in> set fl" by (cases fl) auto
    from assemble_in [OF this] show ?thesis by auto
  qed
  have nodes_eq: "nodes (buildDag ctx) = S @ [s]"
    using A_ne not_sink by (simp add: dag_nodes Let_def S_def A_def s_def)
  have edges_eq: "edges (buildDag ctx) =
      concat (map (entry_edges ctx) fl) @
      map (\<lambda>n. mk_edge (tn_id n) finalAssembleId reason_merge) A"
    by (simp add: dag_edges fl_def A_def S_def)
  have deps_set: "set (tn_dependencies s) =
      (\<lambda>e. task_id ''assemble'' (chapter_number (node e))) ` set fl"
  proof
    show "set (tn_dependencies s) \<subseteq> (\<lambda>e. task_id ''assemble'' (chapter_number (node e))) ` set fl"
    proof
      fix i assume "i \<in> set (tn_dependencies s)"
      then obtain a where a: "a \<in> set S" "tn_type a = Assemble" "i = tn_id a"
        by (auto simp: s_def final_node_simps A_def)
      from stage [OF a(1)] obtain e where e: "e \<in> set fl" "stage_of ctx e a" by blast
      from stage_type_id [OF e(2)] a(2) a(3)
      have "i = task_id ''assemble'' (chapter_number (node e))" by simp
      with e(1) show "i \<in> (\<lambda>e. task_id ''assemble'' (chapter_number (node e))) ` set fl"
        by blast
    qed
  next
    show "(\<lambda>e. task_id ''assemble'' (chapter_number (node e))) ` set fl \<subseteq> set (tn_dependencies s)"
      using assemble_in by (auto simp: s_def final_node_simps)
  qed
  have to_sink: "\<exists>ed \<in> set (edges (buildDag ctx)).
      e_from ed = tn_id a \<and> e_to ed = ''assemble:document''"
    if "a \<in> set S" "tn_type a = Assemble" for a
  proof -
    from that have "mk_edge (tn_id a) finalAssembleId reason_merge \<in> set (edges (buildDag ctx))"
      by (auto simp: edges_eq A_def)
    then show ?thesis by (force simp: mk_edge_def sink_id)
  qed
  have no_dep: "''assemble:document'' \<notin> set (tn_dependencies n)"
    if "n \<in> set (nodes (buildDag ctx))" for n
  proof (cases "n \<in> set S")
    case True
    from stage [OF this] obtain e where "stage_of ctx e n" by blast
    from stage_deps_not_sink [OF this] show ?thesis by (simp add: sink_id)
  next
    case False
    with that have "n = s" by (simp add: nodes_eq)
    then have "set (tn_dependencies n) \<subseteq> tn_id ` set S"
      by (auto simp: s_def final_node_simps A_def)
    with not_sink show ?thesis by (auto simp: sink_id)
  qed
  have no_out: "e_from ed \<noteq> ''assemble:document''" if "ed \<in> set (edges (buildDag ctx))" for ed
  proof -
    from that consider e where "e \<in> set fl" "ed \<in> set (entry_edges ctx e)"
      | a where "a \<in> set A" "ed = mk_edge (tn_id a) finalAssembleId reason_merge"
      by (auto simp: edges_eq)
    then show ?thesis
    proof cases
      case 1
      from entry_edges_not_from_sink [OF 1(2)] show ?thesis by (simp add: sink_id)
    next
      case 2
      then have "e_from ed \<in> tn_id ` set S" by (auto simp: mk_edge_def A_def)
      with not_sink show ?thesis by (auto simp: sink_id)
    qed
  qed
  have has_out: "\<exists>ed \<in> set (edges (buildDag ctx)). e_from ed = tn_id n" if "n \<in> set S" for n
  proof (cases "tn_type n = Assemble")
    case True
    from to_sink [OF that True] show ?thesis by blast
  next
    case False
    from that chapters_origin obtain e
      where e: "e \<in> set fl" "n \<in> set (entry_nodes ctx e)" by (auto simp: S_def fl_def)
    from entry_edge_out [OF e(2) False] obtain ed
      where "ed \<in> set (entry_edges ctx e)" "e_from ed = tn_id n" by blast
    with e(1) show ?thesis by (auto simp: edges_eq)
  qed
  have "nodes (buildDag ctx) = S @ [s] \<and>
           tn_id s = ''assemble:document'' \<and> tn_type s = Assemble \<and>
           ''assemble:document'' \<notin> tn_id ` set S \<and>
           tn_dependencies s = map tn_id (filter (\<lambda>n. tn_type n = Assemble) S) \<and>
           set (tn_dependencies s) =
             (\<lambda>e. task_id ''assemble'' (chapter_number (node e))) `
               set (flattenOutline (outline ctx)) \<and>
           (\<forall>a \<in> set S. tn_type a = Assemble \<longrightarrow>
              (\<exists>ed \<in> set (edges (buildDag ctx)).
                 e_from ed = tn_id a \<and> e_to ed = ''assemble:document'')) \<and>
           (\<forall>n \<in> set (nodes (buildDag ctx)). ''assemble:document'' \<notin> set (tn_dependencies n)) \<and>
           (\<forall>ed \<in> set (edges (buildDag ctx)). e_from ed \<noteq> ''assemble:document'') \<and>
           (\<forall>n \<in> set S. \<exists>ed \<in> set (edges (buildDag ctx)). e_from ed = tn_id n)"
    using nodes_eq not_sink deps_set to_sink no_dep no_out has_out
    by (simp add: s_def final_node_simps A_def sink_id [symmetric] fl_def)
  then show ?thesis by blast
qed


theorem document_sink_witness:
  "outline ctx_no_assets \<noteq> [] \<and>
   list_all (\<lambda>e. str_of (chapter_number (node e)) \<noteq> ''document'')
     (flattenOutline (outline ctx_no_assets)) \<and>
   (\<exists>chs s. nodes (buildDag ctx_no_assets) = chs @ [s] \<and>
      tn_id s = ''assemble:document'' \<and>
      set (tn_dependencies s) = {''assemble:1'', ''assemble:2'', ''assemble:undefined''})"
proof -
  have a: "outline ctx_no_assets \<noteq> []" by (simp add: example_defs)
  have b: "\<forall>e \<in> set (flattenOutline (outline ctx_no_assets)).
      str_of (chapter_number (node e)) \<noteq> ''document''"
    by (simp add: flat_example) (simp add: example_defs str_of_def)
  have c: "(\<lambda>e. task_id ''assemble'' (chapter_number (node e))) `
              set (flattenOutline (outline ctx_no_assets)) =
           {''assemble:1'', ''assemble:2'', ''assemble:undefined''}"
    by (simp add: flat_example) (simp add: example_defs task_id_def str_of_def)
  from document_sink [OF a b] obtain chs s
    where "nodes (buildDag ctx_no_assets) = chs @ [s]" "tn_id s = ''assemble:document''"
      "set (tn_dependencies s) =
         (\<lambda>e. task_id ''assemble'' (chapter_number (node e))) `
           set (flattenOutline (outline ctx_no_assets))"
    by blast
  with a b c show ?thesis by (auto simp: list_all_iff)
qed

theorem empty_outline_counterexample:
  "outline ctx_empty = [] \<and> nodes (buildDag ctx_empty) = [] \<and> edges (buildDag ctx_empty) = []"
  by (simp add: example_defs eval_defs)

lemma chapter_ids_cases:
  "i \<in> set (chapter_ids c) \<Longrightarrow>
   i = task_id ''materialize'' c \<or> i = task_id ''prepare'' c \<or> i = task_id ''retrieve'' c \<or>
   i = task_id ''write'' c \<or> i = task_id ''verify'' c \<or> i = task_id ''assemble'' c"
  by (auto simp: chapter_ids_def)

lemma length_filter_two:
  assumes "distinct (map f xs)" and "f ` {x \<in> set xs. P x} = {a, b}" and "a \<noteq> b"
  shows "length (filter P xs) = 2"
proof -
  have "distinct (map f (filter P xs))" using assms(1) by (rule distinct_map_filter)
  then have "length (filter P xs) = card (set (map f (filter P xs)))"
    by (metis distinct_card length_map)
  also have "set (map f (filter P xs)) = {a, b}" using assms(2) by auto
  finally show ?thesis using assms(3) by simp
qed

text \<open>
  Claim C8. For every flattened outline entry that carries fixed content (the test
  \<open>if (outlineNode.fixed_content)\<close>), where no entry without fixed content shares its
  chapter number (chapter numbers are unique in the data model), the DAG holds a
  \<open>materialize_fixed\<close> node without dependencies and an \<open>assemble\<close> node depending on
  exactly that node; these are the only two nodes under the chapter's six possible ids,
  so there is no \<open>prepare\<close>, \<open>retrieve\<close>, \<open>write\<close> or \<open>verify\<close> node for the chapter;
  and the edge from the one to the other is in the edge list.
\<close>

theorem fixed_content_short_circuit:
  assumes e: "e \<in> set (flattenOutline (outline ctx))"
    and fixed: "truthy_str (fixed_content (node e))"
    and same: "\<forall>e' \<in> set (flattenOutline (outline ctx)).
                 str_of (chapter_number (node e')) = str_of (chapter_number (node e)) \<longrightarrow>
                 truthy_str (fixed_content (node e'))"
  shows "(\<exists>m \<in> set (nodes (buildDag ctx)).
            tn_id m = task_id ''materialize'' (chapter_number (node e)) \<and>
            tn_type m = Materialize_fixed \<and> tn_dependencies m = []) \<and>
         (\<exists>a \<in> set (nodes (buildDag ctx)).
            tn_id a = task_id ''assemble'' (chapter_number (node e)) \<and>
            tn_type a = Assemble \<and>
            tn_dependencies a = [task_id ''materialize'' (chapter_number (node e))]) \<and>
         length (filter (\<lambda>n. tn_id n \<in> set (chapter_ids (chapter_number (node e))))
                   (nodes (buildDag ctx))) = 2 \<and>
         (\<forall>n \<in> set (nodes (buildDag ctx)).
            tn_id n \<in> set (chapter_ids (chapter_number (node e))) \<longrightarrow>
            tn_type n = Materialize_fixed \<or> tn_type n = Assemble) \<and>
         (\<exists>ed \<in> set (edges (buildDag ctx)).
            e_from ed = task_id ''materialize'' (chapter_number (node e)) \<and>
            e_to ed = task_id ''assemble'' (chapter_number (node e)))"
proof -
  define c where "c = chapter_number (node e)"
  define S where "S = ps_nodes (plan_chapters ctx)"
  have sub: "set S \<subseteq> set (nodes (buildDag ctx))"
    using chapters_subset_dag by (simp add: S_def)
  have "materialize_node e \<in> set (entry_nodes ctx e)"
    using fixed by (simp add: entry_nodes_def)
  from planned_node [OF e this] obtain m e1
    where m: "m \<in> set S" "tn_id m = tn_id (materialize_node e)" "stage_of ctx e1 m"
    unfolding S_def by blast
  have mid: "tn_id m = task_id ''materialize'' c"
    using m(2) by (simp add: materialize_node_def c_def)
  from stage_materialize [OF m(3) mid]
  have mprops: "tn_type m = Materialize_fixed" "tn_dependencies m = []" by simp_all
  have "fixed_assemble_node e \<in> set (entry_nodes ctx e)"
    using fixed by (simp add: entry_nodes_def)
  from planned_node [OF e this] obtain a e2
    where a: "a \<in> set S" "tn_id a = tn_id (fixed_assemble_node e)"
      "e2 \<in> set (flattenOutline (outline ctx))" "stage_of ctx e2 a"
    unfolding S_def by blast
  have aid: "tn_id a = task_id ''assemble'' c"
    using a(2) by (simp add: fixed_assemble_node_def c_def)
  from stage_assemble [OF a(4) aid]
  have a2: "tn_type a = Assemble" "str_of (chapter_number (node e2)) = str_of c"
    "tn_dependencies a =
       [if truthy_str (fixed_content (node e2)) then task_id ''materialize'' c
        else task_id ''verify'' c]" by simp_all
  from same a(3) a2(2) have "truthy_str (fixed_content (node e2))" by (simp add: c_def)
  with a2(3) have adeps: "tn_dependencies a = [task_id ''materialize'' c]" by simp
  have only: "(tn_id n = task_id ''materialize'' c \<and> tn_type n = Materialize_fixed) \<or>
              (tn_id n = task_id ''assemble'' c \<and> tn_type n = Assemble)"
    if n: "n \<in> set (nodes (buildDag ctx))" and nid: "tn_id n \<in> set (chapter_ids c)" for n
  proof -
    from dag_node_cases [OF n] show ?thesis
    proof
      assume "n \<in> set (ps_nodes (plan_chapters ctx))"
      from chapters_origin [OF this] obtain e'
        where e': "e' \<in> set (flattenOutline (outline ctx))" "n \<in> set (entry_nodes ctx e')"
        by blast
      note st = entry_nodes_stage [OF e'(2)]
      from chapter_ids_cases [OF nid] show ?thesis
      proof (elim disjE)
        assume i: "tn_id n = task_id ''materialize'' c"
        from stage_materialize [OF st i] i show ?thesis by simp
      next
        assume i: "tn_id n = task_id ''prepare'' c"
        from stage_prepare [OF st i] same e'(1) show ?thesis unfolding c_def by blast
      next
        assume i: "tn_id n = task_id ''retrieve'' c"
        from stage_retrieve [OF st i] same e'(1) show ?thesis unfolding c_def by blast
      next
        assume i: "tn_id n = task_id ''write'' c"
        from stage_write [OF st i] same e'(1) show ?thesis unfolding c_def by blast
      next
        assume i: "tn_id n = task_id ''verify'' c"
        from stage_verify [OF st i] same e'(1) show ?thesis unfolding c_def by blast
      next
        assume i: "tn_id n = task_id ''assemble'' c"
        from stage_assemble [OF st i] i show ?thesis by simp
      qed
    next
      assume fin: "n = final_node (filter (\<lambda>n. tn_type n = Assemble) (ps_nodes (plan_chapters ctx))) \<and>
        finalAssembleId \<notin> tn_id ` set (ps_nodes (plan_chapters ctx))"
      then have t: "tn_type n = Assemble" and i: "tn_id n = finalAssembleId"
        by (simp_all add: final_node_simps)
      from nid i have "tn_id n = task_id ''assemble'' c"
        by (auto simp: chapter_ids_def task_id_def finalAssembleId_def)
      with t show ?thesis by simp
    qed
  qed
  have ne: "task_id ''materialize'' c \<noteq> task_id ''assemble'' c"
    by (simp add: task_id_def)
  have img: "tn_id ` {n \<in> set (nodes (buildDag ctx)). tn_id n \<in> set (chapter_ids c)} =
      {task_id ''materialize'' c, task_id ''assemble'' c}"
  proof
    show "tn_id ` {n \<in> set (nodes (buildDag ctx)). tn_id n \<in> set (chapter_ids c)}
        \<subseteq> {task_id ''materialize'' c, task_id ''assemble'' c}"
      using only by auto
  next
    have "m \<in> {n \<in> set (nodes (buildDag ctx)). tn_id n \<in> set (chapter_ids c)}"
      using m(1) sub mid by (auto simp: chapter_ids_def)
    moreover have "a \<in> {n \<in> set (nodes (buildDag ctx)). tn_id n \<in> set (chapter_ids c)}"
      using a(1) sub aid by (auto simp: chapter_ids_def)
    ultimately show "{task_id ''materialize'' c, task_id ''assemble'' c}
        \<subseteq> tn_id ` {n \<in> set (nodes (buildDag ctx)). tn_id n \<in> set (chapter_ids c)}"
      using mid aid by (metis (no_types, lifting) empty_subsetI image_eqI insert_subset)
  qed
  have two: "length (filter (\<lambda>n. tn_id n \<in> set (chapter_ids c)) (nodes (buildDag ctx))) = 2"
    by (rule length_filter_two [OF dag_distinct img ne])
  have "mk_edge (task_id ''materialize'' c) (task_id ''assemble'' c) reason_fixed
          \<in> set (entry_edges ctx e)"
    using fixed by (simp add: entry_edges_def Let_def c_def)
  with e have "mk_edge (task_id ''materialize'' c) (task_id ''assemble'' c) reason_fixed
          \<in> set (edges (buildDag ctx))"
    by (auto simp: dag_edges)
  then have edge: "\<exists>ed \<in> set (edges (buildDag ctx)).
            e_from ed = task_id ''materialize'' c \<and> e_to ed = task_id ''assemble'' c"
    by (force simp: mk_edge_def)
  have "\<exists>m \<in> set (nodes (buildDag ctx)).
            tn_id m = task_id ''materialize'' c \<and>
            tn_type m = Materialize_fixed \<and> tn_dependencies m = []"
    using m(1) sub mid mprops by blast
  moreover have "\<exists>a \<in> set (nodes (buildDag ctx)).
            tn_id a = task_id ''assemble'' c \<and> tn_type a = Assemble \<and>
            tn_dependencies a = [task_id ''materialize'' c]"
    using a(1) sub aid a2(1) adeps by blast
  moreover have "\<forall>n \<in> set (nodes (buildDag ctx)).
            tn_id n \<in> set (chapter_ids c) \<longrightarrow>
            tn_type n = Materialize_fixed \<or> tn_type n = Assemble"
    using only by blast
  ultimately show ?thesis using two edge unfolding c_def by blast
qed


theorem fixed_content_short_circuit_witness:
  "entry fixed_chapter \<in> set (flattenOutline (outline ctx_no_assets)) \<and>
   truthy_str (fixed_content (node (entry fixed_chapter))) \<and>
   list_all (\<lambda>e'. str_of (chapter_number (node e')) =
                     str_of (chapter_number (node (entry fixed_chapter))) \<longrightarrow>
                   truthy_str (fixed_content (node e')))
     (flattenOutline (outline ctx_no_assets)) \<and>
   length (filter (\<lambda>n. tn_id n \<in> set (chapter_ids (Some ''2''))) (nodes (buildDag ctx_no_assets))) = 2 \<and>
   (\<exists>ed \<in> set (edges (buildDag ctx_no_assets)).
      e_from ed = ''materialize:2'' \<and> e_to ed = ''assemble:2'')"
proof -
  have a: "entry fixed_chapter \<in> set (flattenOutline (outline ctx_no_assets))"
    by (simp add: flat_example)
  have b: "truthy_str (fixed_content (node (entry fixed_chapter)))"
    by (simp add: example_defs truthy_str_def)
  have c: "\<forall>e' \<in> set (flattenOutline (outline ctx_no_assets)).
      str_of (chapter_number (node e')) = str_of (chapter_number (node (entry fixed_chapter))) \<longrightarrow>
      truthy_str (fixed_content (node e'))"
    by (simp add: flat_example) (simp add: example_defs str_of_def truthy_str_def)
  have d: "chapter_number (node (entry fixed_chapter)) = Some ''2''"
    by (simp add: example_defs)
  from fixed_content_short_circuit [OF a b c]
  have "length (filter (\<lambda>n. tn_id n \<in> set (chapter_ids (chapter_number (node (entry fixed_chapter)))))
                   (nodes (buildDag ctx_no_assets))) = 2"
    and "\<exists>ed \<in> set (edges (buildDag ctx_no_assets)).
            e_from ed = task_id ''materialize'' (chapter_number (node (entry fixed_chapter))) \<and>
            e_to ed = task_id ''assemble'' (chapter_number (node (entry fixed_chapter)))"
    by blast+
  then show ?thesis using a b c by (simp add: d task_id_def str_of_def list_all_iff)
qed

subsection \<open>The DAG is closed under dependencies\<close>

lemma entry_dep_in_entry:
  "n \<in> set (entry_nodes ctx e) \<Longrightarrow> dep \<in> set (tn_dependencies n) \<Longrightarrow>
   dep \<in> tn_id ` set (entry_nodes ctx e)"
  by (auto simp: entry_nodes_def lastDependency_def
        materialize_node_def fixed_assemble_node_def prepare_node_def retrieve_node_def
        write_node_def verify_node_def assemble_node_def split: if_splits)

lemma dag_closed:
  assumes "n \<in> set (nodes (buildDag ctx))" and "dep \<in> set (tn_dependencies n)"
  shows "dep \<in> tn_id ` set (nodes (buildDag ctx))"
proof -
  from dag_node_cases [OF assms(1)] show ?thesis
  proof
    assume "n \<in> set (ps_nodes (plan_chapters ctx))"
    from chapters_origin [OF this] obtain e
      where e: "e \<in> set (flattenOutline (outline ctx))" "n \<in> set (entry_nodes ctx e)" by blast
    from entry_dep_in_entry [OF e(2) assms(2)] obtain m
      where "m \<in> set (entry_nodes ctx e)" "dep = tn_id m" by blast
    with chapters_ids [OF e(1)] chapters_subset_dag [of ctx] show ?thesis by blast
  next
    assume "n = final_node (filter (\<lambda>n. tn_type n = Assemble) (ps_nodes (plan_chapters ctx))) \<and>
      finalAssembleId \<notin> tn_id ` set (ps_nodes (plan_chapters ctx))"
    with assms(2) have "dep \<in> tn_id ` set (ps_nodes (plan_chapters ctx))"
      by (auto simp: final_node_simps)
    with chapters_subset_dag [of ctx] show ?thesis by blast
  qed
qed

section \<open>Properties of the store and the dispatcher\<close>

lemmas world_defs = mk_row_def mk_world_def default_dispatcher_def chain_rows_def verifying_rows_def
  restart_rows_def result_event_def soft_fail_result_def retry_result_def
  blocked_rows_def autofix_result_def write_result_def write_failed_event_def

subsection \<open>Reading the table\<close>

lemma find_primary_key:
  "primary_key tbl \<Longrightarrow> d \<in> set tbl \<Longrightarrow> has_key p n d \<Longrightarrow> find (has_key p n) tbl = Some d"
proof (induction tbl)
  case Nil
  then show ?case by simp
next
  case (Cons a tbl)
  show ?case
  proof (cases "has_key p n a")
    case True
    have "d = a"
    proof (rule ccontr)
      assume "d \<noteq> a"
      with Cons.prems(2) have "d \<in> set tbl" by simp
      then have "(project_id d, node_id d) \<in> set (map (\<lambda>r. (project_id r, node_id r)) tbl)"
        by force
      with Cons.prems(1,3) True show False by (simp add: primary_key_def has_key_def)
    qed
    with True show ?thesis by simp
  next
    case False
    with Cons.prems(2,3) have "d \<in> set tbl" by auto
    moreover from Cons.prems(1) have "primary_key tbl" by (simp add: primary_key_def)
    ultimately show ?thesis using Cons.IH Cons.prems(3) False by simp
  qed
qed

lemma find_SomeD: "find P xs = Some x \<Longrightarrow> x \<in> set xs \<and> P x"
  by (induction xs) (auto split: if_splits)

lemma status_of_None: "(status_of tbl p n = None) = (\<forall>d \<in> set tbl. \<not> has_key p n d)"
  by (auto simp: status_of_def find_None_iff)

lemma blocking_dependency:
  assumes "primary_key tbl"
  shows "list_ex (\<lambda>d. project_id d = p \<and> node_id d = dep \<and> status d \<noteq> Completed) tbl =
         (status_of tbl p dep \<noteq> None \<and> status_of tbl p dep \<noteq> Some Completed)"
proof
  assume "list_ex (\<lambda>d. project_id d = p \<and> node_id d = dep \<and> status d \<noteq> Completed) tbl"
  then obtain d where d: "d \<in> set tbl" "has_key p dep d" "status d \<noteq> Completed"
    by (auto simp: list_ex_iff has_key_def)
  from find_primary_key [OF assms d(1,2)] d(3)
  show "status_of tbl p dep \<noteq> None \<and> status_of tbl p dep \<noteq> Some Completed"
    by (simp add: status_of_def)
next
  assume "status_of tbl p dep \<noteq> None \<and> status_of tbl p dep \<noteq> Some Completed"
  then obtain d where "find (has_key p dep) tbl = Some d" "status d \<noteq> Completed"
    by (auto simp: status_of_def)
  then have "d \<in> set tbl" "has_key p dep d" "status d \<noteq> Completed"
    using find_SomeD by fastforce+
  then show "list_ex (\<lambda>d. project_id d = p \<and> node_id d = dep \<and> status d \<noteq> Completed) tbl"
    by (auto simp: list_ex_iff has_key_def)
qed

lemma ready_row_iff:
  assumes "primary_key tbl"
  shows "(project_id ts = p \<and> status ts = Pending \<and>
          \<not> list_ex (\<lambda>dep. list_ex (\<lambda>dep_state.
              project_id dep_state = project_id ts \<and> node_id dep_state = dep \<and>
              status dep_state \<noteq> Completed) tbl) (dependencies ts)) = code_ready tbl p ts"
proof (cases "project_id ts = p")
  case True
  have "list_ex (\<lambda>dep. list_ex (\<lambda>dep_state.
              project_id dep_state = p \<and> node_id dep_state = dep \<and>
              status dep_state \<noteq> Completed) tbl) (dependencies ts) =
        (\<not> list_all (\<lambda>dep. status_of tbl p dep = None \<or> status_of tbl p dep = Some Completed)
             (dependencies ts))"
    unfolding blocking_dependency [OF assms] by (simp add: list_ex_iff list_all_iff)
  with True show ?thesis by (simp add: code_ready_def)
next
  case False
  then show ?thesis by (simp add: code_ready_def)
qed

lemma list_ready_tasks_code_ready:
  "primary_key tbl \<Longrightarrow> list_ready_tasks tbl p = filter (code_ready tbl p) tbl"
  unfolding list_ready_tasks_def by (rule filter_cong) (simp_all add: ready_row_iff)

subsection \<open>Verify results with an unknown status\<close>

lemma truthy_js_get: "truthy (js_get v k) \<Longrightarrow> truthy v"
  by (cases v) simp_all

text \<open>
  Claim C10. A verify result event without an error whose result has a truthy \<open>status\<close>
  other than \<open>accept\<close>, \<open>hard_fail\<close> and \<open>soft_fail\<close> leaves the world as it is: no row is
  written and no job is added, so the verify task keeps the status it had.
\<close>

theorem unknown_verify_status_changes_nothing:
  assumes "re_type ev = Task Verify" and "\<not> truthy_str (re_error ev)"
    and "truthy (js_get (re_result ev) ''status'')"
    and "js_get (re_result ev) ''status'' \<noteq> JStr ''accept''"
    and "js_get (re_result ev) ''status'' \<noteq> JStr ''hard_fail''"
    and "js_get (re_result ev) ''status'' \<noteq> JStr ''soft_fail''"
  shows "handleWorkerResult d ev w = w"
  using assms truthy_js_get [OF assms(3)]
  by (simp add: handleWorkerResult_def handleVerifyResult_def Let_def)

theorem unknown_verify_status_changes_nothing_witness:
  "re_type (result_event ''verify:1'' (Task Verify) retry_result None) = Task Verify \<and>
   \<not> truthy_str (re_error (result_event ''verify:1'' (Task Verify) retry_result None)) \<and>
   js_get retry_result ''status'' = JStr ''retry'' \<and>
   handleWorkerResult default_dispatcher
     (result_event ''verify:1'' (Task Verify) retry_result None) (mk_world verifying_rows) =
     mk_world verifying_rows \<and>
   status_of verifying_rows ''p1'' ''verify:1'' = Some Running"
proof -
  have a: "re_type (result_event ''verify:1'' (Task Verify) retry_result None) = Task Verify"
    "\<not> truthy_str (re_error (result_event ''verify:1'' (Task Verify) retry_result None))"
    "js_get (re_result (result_event ''verify:1'' (Task Verify) retry_result None)) ''status'' = JStr ''retry''"
    by (simp_all add: result_event_def retry_result_def truthy_str_def obj_get_def)
  have b: "status_of verifying_rows ''p1'' ''verify:1'' = Some Running"
    by (simp add: verifying_rows_def mk_row_def status_of_def has_key_def)
  from a(3) have "handleWorkerResult default_dispatcher
     (result_event ''verify:1'' (Task Verify) retry_result None) (mk_world verifying_rows) =
     mk_world verifying_rows"
    by (intro unknown_verify_status_changes_nothing a(1,2)) simp_all
  with a b show ?thesis by (simp add: result_event_def)
qed

subsection \<open>Objects\<close>

lemma obj_get_update: "obj_get (AList.update k v ob) k' = (if k' = k then v else obj_get ob k')"
  by (simp add: obj_get_def update_conv')

lemma obj_get_delete: "obj_get (AList.delete k ob) k' = (if k' = k then JUndefined else obj_get ob k')"
  by (simp add: obj_get_def delete_conv')

lemma map_of_jsonify_fields_None:
  "map_of ob k = None \<Longrightarrow> map_of (jsonify_fields ob) k = None"
proof (induction ob)
  case Nil
  show ?case by simp
next
  case (Cons a ob)
  then show ?case by (cases a) (auto split: if_splits)
qed

lemma obj_get_jsonify_fields:
  "distinct (map fst ob) \<Longrightarrow> obj_get (jsonify_fields ob) k = jsonify (obj_get ob k)"
proof (induction ob)
  case Nil
  show ?case by (simp add: obj_get_def)
next
  case (Cons a ob)
  obtain k' v where a: "a = (k', v)" by (cases a)
  from Cons.prems a have nin: "map_of ob k' = None" and d: "distinct (map fst ob)"
    by (auto simp: map_of_eq_None_iff)
  show ?case
  proof (cases "k = k'")
    case True
    with a nin map_of_jsonify_fields_None [OF nin] show ?thesis
      by (simp add: obj_get_def)
  next
    case False
    with a Cons.IH [OF d] show ?thesis by (simp add: obj_get_def)
  qed
qed

subsection \<open>Writes to the table\<close>

lemma rows_sql_update:
  "rows (sql_update P f w) =
     map (\<lambda>r. if P r then (f r)\<lparr>updated_at := clock w (stmts w)\<rparr> else r) (rows w)"
  by (simp add: sql_update_def)

lemma jobs_sql_update: "jobs (sql_update P f w) = jobs w"
  by (simp add: sql_update_def)

lemma jobs_updateStatus: "jobs (updateStatus p n st meta w) = jobs w"
  by (simp add: updateStatus_def jobs_sql_update)

lemma find_map_key:
  "(\<And>r. Q (g r) = Q r) \<Longrightarrow> find Q (map g xs) = map_option g (find Q xs)"
  by (induction xs) simp_all

lemma getTask_updateStatus:
  assumes "getTask (rows w) p n = Some t"
  shows "\<exists>t'. getTask (rows (updateStatus p n st meta w)) p n = Some t' \<and>
           r_status t' = st \<and>
           r_metadata t' = (case m_metadata meta of None \<Rightarrow> r_metadata t
                            | Some md \<Rightarrow> jsonify_fields md) \<and>
           r_type t' = r_type t \<and> r_dependencies t' = r_dependencies t \<and>
           r_dependents t' = r_dependents t \<and> r_nodeId t' = n \<and> r_projectId t' = p"
proof -
  from assms obtain r where r: "find (has_key p n) (rows w) = Some r" "t = to_record r"
    by (auto simp: getTask_def)
  from find_SomeD [OF r(1)] have k: "has_key p n r" by simp
  define g where "g = (\<lambda>r. if has_key p n r
     then (r\<lparr>status := st,
              result := (if m_result meta \<noteq> JUndefined then jsonify (m_result meta) else result r),
              error := (case m_error meta of None \<Rightarrow> error r | Some e \<Rightarrow> e),
              retries := (case m_retries meta of None \<Rightarrow> retries r | Some k \<Rightarrow> k),
              metadata := (case m_metadata meta of None \<Rightarrow> metadata r
                           | Some md \<Rightarrow> jsonify_fields md)\<rparr>)\<lparr>updated_at := clock w (stmts w)\<rparr>
     else r)"
  have rows: "rows (updateStatus p n st meta w) = map g (rows w)"
    by (simp add: updateStatus_def rows_sql_update g_def)
  have "\<And>r. has_key p n (g r) = has_key p n r" by (simp add: g_def has_key_def)
  from find_map_key [of "has_key p n" g, OF this]
  have "getTask (rows (updateStatus p n st meta w)) p n = Some (to_record (g r))"
    by (simp add: rows getTask_def r(1))
  moreover have "r_status (to_record (g r)) = st"
    "r_metadata (to_record (g r)) = (case m_metadata meta of None \<Rightarrow> r_metadata t
                            | Some md \<Rightarrow> jsonify_fields md)"
    "r_type (to_record (g r)) = r_type t" "r_dependencies (to_record (g r)) = r_dependencies t"
    "r_dependents (to_record (g r)) = r_dependents t"
    "r_nodeId (to_record (g r)) = n" "r_projectId (to_record (g r)) = p"
    using k by (simp_all add: g_def to_record_def r(2) has_key_def split: option.splits)
  ultimately show ?thesis by blast
qed

text \<open>
  Claim C3, as amended. For a verify result event without an error whose result has
  status \<open>soft_fail\<close> and whose node id names an existing task (with an object as
  metadata: each key once), \<open>handleWorkerResult\<close> leaves that task with status
  \<open>blocked\<close>, with the draft, the patches (under \<open>pendingPatches\<close>) and the violations of
  the result stored in its metadata as JSON and its other metadata keys kept, and adds
  exactly one job, on the autofix queue, carrying the draft and the patches. (When the
  node id names no task the handler returns at its guard and adds no job.)
\<close>

theorem soft_fail_blocks_and_enqueues_autofix:
  assumes verify: "re_type ev = Task Verify"
    and no_error: "\<not> truthy_str (re_error ev)"
    and soft: "js_get (re_result ev) ''status'' = JStr ''soft_fail''"
    and exists: "getTask (rows w) (re_projectId ev) (re_nodeId ev) = Some task"
    and object: "distinct (map fst (r_metadata task))"
  shows "(\<exists>task'. getTask (rows (handleWorkerResult d ev w)) (re_projectId ev) (re_nodeId ev)
                    = Some task' \<and>
            r_status task' = Blocked \<and>
            obj_get (r_metadata task') ''draft'' = jsonify (js_get (re_result ev) ''draft'') \<and>
            obj_get (r_metadata task') ''pendingPatches'' =
              jsonify (js_get (re_result ev) ''patches'') \<and>
            obj_get (r_metadata task') ''violations'' =
              jsonify (js_get (re_result ev) ''violations'') \<and>
            (\<forall>k. k \<noteq> ''draft'' \<and> k \<noteq> ''pendingPatches'' \<and> k \<noteq> ''violations'' \<longrightarrow>
               obj_get (r_metadata task') k = jsonify (obj_get (r_metadata task) k))) \<and>
         jobs (handleWorkerResult d ev w) =
           jobs w @
           [\<lparr>j_queue = ''report-autofixer'',
             j_name = re_projectId ev @ '':'' @ re_nodeId ev @ '':autofix'',
             j_data = JObj [(''projectId'', JStr (re_projectId ev)),
                            (''nodeId'', JStr (re_nodeId ev)),
                            (''draft'', js_get (re_result ev) ''draft''),
                            (''patches'', coalesce (js_get (re_result ev) ''patches'') (JArr []))],
             j_opts = defaultEnqueueOptions\<rparr>]"
proof -
  define p where "p = re_projectId ev"
  define n where "n = re_nodeId ev"
  define md where "md = AList.update ''violations'' (js_get (re_result ev) ''violations'')
                         (AList.update ''pendingPatches'' (js_get (re_result ev) ''patches'')
                           (AList.update ''draft'' (js_get (re_result ev) ''draft'')
                             (r_metadata task)))"
  define meta where "meta = no_meta\<lparr>m_metadata := Some md,
                                  m_result := js_get (re_result ev) ''draft''\<rparr>"
  define w1 where "w1 = updateStatus p n Blocked meta w"
  have t: "truthy (re_result ev)"
    using soft truthy_js_get [of "re_result ev" "''status''"] by simp
  have step: "handleWorkerResult d ev w =
      queue_add (toQueueName ''autofixer'') (p @ '':'' @ n @ '':autofix'')
        (JObj [(''projectId'', JStr p), (''nodeId'', JStr n),
               (''draft'', js_get (re_result ev) ''draft''),
               (''patches'', coalesce (js_get (re_result ev) ''patches'') (JArr []))])
        defaultEnqueueOptions w1"
    using verify no_error soft t exists
    by (simp add: handleWorkerResult_def handleVerifyResult_def Let_def p_def n_def w1_def
          meta_def md_def)
  have dmd: "distinct (map fst md)"
    using object by (simp add: md_def distinct_update)
  from getTask_updateStatus [OF exists, of Blocked meta] obtain task'
    where t': "getTask (rows w1) p n = Some task'" "r_status task' = Blocked"
      "r_metadata task' = jsonify_fields md"
    by (auto simp: w1_def p_def n_def meta_def)
  have look: "obj_get (r_metadata task') k = jsonify (obj_get md k)" for k
    by (simp add: t'(3) obj_get_jsonify_fields [OF dmd])
  have "obj_get (r_metadata task') ''draft'' = jsonify (js_get (re_result ev) ''draft'')"
    "obj_get (r_metadata task') ''pendingPatches'' = jsonify (js_get (re_result ev) ''patches'')"
    "obj_get (r_metadata task') ''violations'' = jsonify (js_get (re_result ev) ''violations'')"
    "\<forall>k. k \<noteq> ''draft'' \<and> k \<noteq> ''pendingPatches'' \<and> k \<noteq> ''violations'' \<longrightarrow>
               obj_get (r_metadata task') k = jsonify (obj_get (r_metadata task) k)"
    by (simp_all add: look md_def obj_get_update)
  moreover have "rows (handleWorkerResult d ev w) = rows w1"
    by (simp add: step queue_add_def)
  moreover have "jobs (handleWorkerResult d ev w) =
           jobs w @
           [\<lparr>j_queue = ''report-autofixer'', j_name = p @ '':'' @ n @ '':autofix'',
             j_data = JObj [(''projectId'', JStr p), (''nodeId'', JStr n),
                            (''draft'', js_get (re_result ev) ''draft''),
                            (''patches'', coalesce (js_get (re_result ev) ''patches'') (JArr []))],
             j_opts = defaultEnqueueOptions\<rparr>]"
    by (simp add: step queue_add_def w1_def jobs_updateStatus toQueueName_def)
  ultimately show ?thesis using t'(1,2) unfolding p_def n_def by auto
qed


theorem soft_fail_blocks_and_enqueues_autofix_witness:
  "re_type (result_event ''verify:1'' (Task Verify) soft_fail_result None) = Task Verify \<and>
   \<not> truthy_str (re_error (result_event ''verify:1'' (Task Verify) soft_fail_result None)) \<and>
   js_get soft_fail_result ''status'' = JStr ''soft_fail'' \<and>
   getTask (rows (mk_world verifying_rows)) ''p1'' ''verify:1'' =
     Some (to_record (mk_row ''verify:1'' Verify Running [''write:1''] [''assemble:1''])) \<and>
   (\<exists>task'. getTask (rows (handleWorkerResult default_dispatcher
                (result_event ''verify:1'' (Task Verify) soft_fail_result None)
                (mk_world verifying_rows))) ''p1'' ''verify:1'' = Some task' \<and>
       r_status task' = Blocked \<and>
       obj_get (r_metadata task') ''draft'' = JStr ''text'' \<and>
       obj_get (r_metadata task') ''pendingPatches'' = JArr [JStr ''p1''] \<and>
       obj_get (r_metadata task') ''violations'' = JArr [JStr ''v1'']) \<and>
   map j_name (jobs (handleWorkerResult default_dispatcher
                (result_event ''verify:1'' (Task Verify) soft_fail_result None)
                (mk_world verifying_rows))) = [''p1:verify:1:autofix'']"
proof -
  define ev where "ev = result_event ''verify:1'' (Task Verify) soft_fail_result None"
  define task where "task = to_record (mk_row ''verify:1'' Verify Running [''write:1''] [''assemble:1''])"
  have ev: "re_projectId ev = ''p1''" "re_nodeId ev = ''verify:1''" "re_result ev = soft_fail_result"
    by (simp_all add: ev_def result_event_def)
  have a: "re_type ev = Task Verify" "\<not> truthy_str (re_error ev)"
    by (simp_all add: ev_def result_event_def truthy_str_def)
  have b: "js_get (re_result ev) ''status'' = JStr ''soft_fail''"
    "js_get soft_fail_result ''draft'' = JStr ''text''"
    "js_get soft_fail_result ''patches'' = JArr [JStr ''p1'']"
    "js_get soft_fail_result ''violations'' = JArr [JStr ''v1'']"
    by (simp_all add: ev soft_fail_result_def obj_get_def)
  have c: "getTask (rows (mk_world verifying_rows)) (re_projectId ev) (re_nodeId ev) = Some task"
    by (simp add: ev task_def getTask_def mk_world_def verifying_rows_def mk_row_def has_key_def)
  have d: "distinct (map fst (r_metadata task))"
    by (simp add: task_def to_record_def mk_row_def)
  note inst = soft_fail_blocks_and_enqueues_autofix [OF a b(1) c d, of default_dispatcher]
  from inst obtain task'
    where "getTask (rows (handleWorkerResult default_dispatcher ev (mk_world verifying_rows)))
             ''p1'' ''verify:1'' = Some task'" "r_status task' = Blocked"
      "obj_get (r_metadata task') ''draft'' = JStr ''text''"
      "obj_get (r_metadata task') ''pendingPatches'' = JArr [JStr ''p1'']"
      "obj_get (r_metadata task') ''violations'' = JArr [JStr ''v1'']"
    by (auto simp: ev b)
  moreover from inst
  have "map j_name (jobs (handleWorkerResult default_dispatcher ev (mk_world verifying_rows))) =
          [''p1:verify:1:autofix'']"
    by (simp add: ev mk_world_def)
  ultimately show ?thesis using a b(1) c unfolding ev_def [symmetric] task_def [symmetric]
    by (auto simp: ev)
qed

theorem soft_fail_missing_task_counterexample:
  "js_get soft_fail_result ''status'' = JStr ''soft_fail'' \<and>
   handleWorkerResult default_dispatcher
     (result_event ''verify:1'' (Task Verify) soft_fail_result None) (mk_world []) = mk_world [] \<and>
   jobs (mk_world []) = []"
  by (simp add: handleWorkerResult_def handleVerifyResult_def Let_def result_event_def
        soft_fail_result_def truthy_str_def obj_get_def getTask_def mk_world_def)

text \<open>
  Claim C4. For an autofix result event without an error whose node id names an existing
  task (with an object as metadata), the store write of \<open>handleAutofixSuccess\<close> leaves
  the task with status \<open>pending\<close>, with the patched draft (or, if the result has none,
  the draft it had) under \<open>draft\<close>, without the keys \<open>pendingPatches\<close> and
  \<open>violations\<close>, and with its other metadata keys kept; the record read back is then
  enqueued again: one job is added on the queue of the task's kind for that node id,
  and enqueueing marks the task \<open>running\<close>. At no point is it \<open>completed\<close>.
\<close>

theorem autofix_success_resets_and_reenqueues:
  assumes autofix: "re_type ev = Autofix"
    and no_error: "\<not> truthy_str (re_error ev)"
    and exists: "getTask (rows w) (re_projectId ev) (re_nodeId ev) = Some task"
    and object: "distinct (map fst (r_metadata task))"
  shows "\<exists>refreshed final.
           getTask (rows (autofix_reset ev task w)) (re_projectId ev) (re_nodeId ev)
             = Some refreshed \<and>
           r_status refreshed = Pending \<and>
           obj_get (r_metadata refreshed) ''draft'' =
             jsonify (coalesce (js_get (re_result ev) ''draft'') (obj_get (r_metadata task) ''draft'')) \<and>
           obj_get (r_metadata refreshed) ''pendingPatches'' = JUndefined \<and>
           obj_get (r_metadata refreshed) ''violations'' = JUndefined \<and>
           (\<forall>k. k \<noteq> ''draft'' \<and> k \<noteq> ''pendingPatches'' \<and> k \<noteq> ''violations'' \<longrightarrow>
              obj_get (r_metadata refreshed) k = jsonify (obj_get (r_metadata task) k)) \<and>
           handleWorkerResult d ev w =
             enqueueTask d (re_projectId ev) refreshed (autofix_reset ev task w) \<and>
           jobs (handleWorkerResult d ev w) =
             jobs w @
             [\<lparr>j_queue = resolveQueue (r_type task),
               j_name = re_projectId ev @ '':'' @ re_nodeId ev,
               j_data = buildJobPayload (rows (autofix_reset ev task w)) (re_projectId ev) refreshed,
               j_opts = spread defaultEnqueueOptions
                          (case enqueue_options d of None \<Rightarrow> [] | Some ob \<Rightarrow> ob)\<rparr>] \<and>
           getTask (rows (handleWorkerResult d ev w)) (re_projectId ev) (re_nodeId ev)
             = Some final \<and>
           r_status final = Running \<and> r_metadata final = r_metadata refreshed"
proof -
  define p where "p = re_projectId ev"
  define n where "n = re_nodeId ev"
  define md where "md = autofix_metadata ev task"
  define w1 where "w1 = autofix_reset ev task w"
  have w1: "w1 = updateStatus p n Pending
      (no_meta\<lparr>m_metadata := Some md, m_result := js_get (re_result ev) ''draft''\<rparr>) w"
    by (simp add: w1_def autofix_reset_def p_def n_def md_def)
  have dmd: "distinct (map fst md)"
    using object by (simp add: md_def autofix_metadata_def distinct_update distinct_delete)
  from getTask_updateStatus [OF exists, of Pending
      "no_meta\<lparr>m_metadata := Some md, m_result := js_get (re_result ev) ''draft''\<rparr>"]
  obtain refreshed
    where r: "getTask (rows w1) p n = Some refreshed" "r_status refreshed = Pending"
      "r_metadata refreshed = jsonify_fields md" "r_type refreshed = r_type task"
      "r_nodeId refreshed = n"
    by (auto simp: w1 p_def n_def)
  have look: "obj_get (r_metadata refreshed) k = jsonify (obj_get md k)" for k
    by (simp add: r(3) obj_get_jsonify_fields [OF dmd])
  have meta: "obj_get (r_metadata refreshed) ''draft'' =
             jsonify (coalesce (js_get (re_result ev) ''draft'') (obj_get (r_metadata task) ''draft''))"
    "obj_get (r_metadata refreshed) ''pendingPatches'' = JUndefined"
    "obj_get (r_metadata refreshed) ''violations'' = JUndefined"
    "\<forall>k. k \<noteq> ''draft'' \<and> k \<noteq> ''pendingPatches'' \<and> k \<noteq> ''violations'' \<longrightarrow>
              obj_get (r_metadata refreshed) k = jsonify (obj_get (r_metadata task) k)"
    by (simp_all add: look md_def autofix_metadata_def obj_get_update obj_get_delete)
  have step: "handleWorkerResult d ev w = enqueueTask d p refreshed w1"
    using autofix no_error exists r(1)
    by (simp add: handleWorkerResult_def handleAutofixSuccess_def Let_def p_def n_def w1_def)
  define w2 where "w2 = queue_add (resolveQueue (r_type refreshed)) (p @ '':'' @ r_nodeId refreshed)
      (buildJobPayload (rows w1) p refreshed)
      (spread defaultEnqueueOptions (case enqueue_options d of None \<Rightarrow> [] | Some ob \<Rightarrow> ob)) w1"
  have enq: "enqueueTask d p refreshed w1 = updateStatus p n Running no_meta w2"
    by (simp add: enqueueTask_def Let_def w2_def r(5))
  have jobs: "jobs (handleWorkerResult d ev w) =
             jobs w @
             [\<lparr>j_queue = resolveQueue (r_type task), j_name = p @ '':'' @ n,
               j_data = buildJobPayload (rows w1) p refreshed,
               j_opts = spread defaultEnqueueOptions
                          (case enqueue_options d of None \<Rightarrow> [] | Some ob \<Rightarrow> ob)\<rparr>]"
  proof -
    have "jobs w1 = jobs w" by (simp add: w1 jobs_updateStatus)
    then show ?thesis
      by (simp add: step enq jobs_updateStatus w2_def queue_add_def r(4,5))
  qed
  have "getTask (rows w2) p n = Some refreshed"
    using r(1) by (simp add: w2_def queue_add_def)
  from getTask_updateStatus [OF this, of Running no_meta] obtain final
    where "getTask (rows (handleWorkerResult d ev w)) p n = Some final"
      "r_status final = Running" "r_metadata final = r_metadata refreshed"
    by (auto simp: step enq no_meta_def)
  with r(1,2) meta step jobs show ?thesis
    unfolding p_def n_def w1_def by blast
qed


theorem autofix_success_resets_and_reenqueues_witness:
  "re_type (result_event ''verify:1'' Autofix autofix_result None) = Autofix \<and>
   \<not> truthy_str (re_error (result_event ''verify:1'' Autofix autofix_result None)) \<and>
   map_option r_status (getTask (rows (mk_world blocked_rows)) ''p1'' ''verify:1'') = Some Blocked \<and>
   (\<exists>final. getTask (rows (handleWorkerResult default_dispatcher
                (result_event ''verify:1'' Autofix autofix_result None)
                (mk_world blocked_rows))) ''p1'' ''verify:1'' = Some final \<and>
       r_status final = Running \<and>
       obj_get (r_metadata final) ''draft'' = JStr ''patched text'' \<and>
       obj_get (r_metadata final) ''pendingPatches'' = JUndefined \<and>
       obj_get (r_metadata final) ''violations'' = JUndefined \<and>
       obj_get (r_metadata final) ''title'' = JStr ''Scope'') \<and>
   map (\<lambda>j. (j_queue j, j_name j))
     (jobs (handleWorkerResult default_dispatcher
        (result_event ''verify:1'' Autofix autofix_result None) (mk_world blocked_rows))) =
     [(''report-verifier'', ''p1:verify:1'')]"
proof -
  define ev where "ev = result_event ''verify:1'' Autofix autofix_result None"
  define task where "task = to_record
     ((mk_row ''verify:1'' Verify Blocked [''write:1''] [''assemble:1''])
        \<lparr>metadata := [(''title'', JStr ''Scope''), (''draft'', JStr ''text''),
                      (''pendingPatches'', JArr [JStr ''p1'']),
                      (''violations'', JArr [JStr ''v1''])]\<rparr>)"
  have ev: "re_projectId ev = ''p1''" "re_nodeId ev = ''verify:1''" "re_result ev = autofix_result"
    by (simp_all add: ev_def result_event_def)
  have a: "re_type ev = Autofix" "\<not> truthy_str (re_error ev)"
    by (simp_all add: ev_def result_event_def truthy_str_def)
  have c: "getTask (rows (mk_world blocked_rows)) (re_projectId ev) (re_nodeId ev) = Some task"
    by (simp add: ev task_def getTask_def mk_world_def blocked_rows_def mk_row_def has_key_def)
  have d: "distinct (map fst (r_metadata task))"
    by (simp add: task_def to_record_def mk_row_def)
  have e: "r_status task = Blocked" "r_type task = Verify"
    "jsonify (coalesce (js_get autofix_result ''draft'') (obj_get (r_metadata task) ''draft''))
       = JStr ''patched text''"
    "jsonify (obj_get (r_metadata task) ''title'') = JStr ''Scope''"
    by (simp_all add: task_def to_record_def mk_row_def autofix_result_def obj_get_def
          coalesce_def nullish_def)
  from autofix_success_resets_and_reenqueues [OF a c d, of default_dispatcher]
  obtain refreshed final
    where f: "obj_get (r_metadata refreshed) ''draft'' = JStr ''patched text''"
      "obj_get (r_metadata refreshed) ''pendingPatches'' = JUndefined"
      "obj_get (r_metadata refreshed) ''violations'' = JUndefined"
      "obj_get (r_metadata refreshed) ''title'' = JStr ''Scope''"
      "jobs (handleWorkerResult default_dispatcher ev (mk_world blocked_rows)) =
         jobs (mk_world blocked_rows) @
         [\<lparr>j_queue = resolveQueue (r_type task), j_name = re_projectId ev @ '':'' @ re_nodeId ev,
           j_data = buildJobPayload (rows (autofix_reset ev task (mk_world blocked_rows)))
                      (re_projectId ev) refreshed,
           j_opts = spread defaultEnqueueOptions
                      (case enqueue_options default_dispatcher of None \<Rightarrow> [] | Some ob \<Rightarrow> ob)\<rparr>]"
      "getTask (rows (handleWorkerResult default_dispatcher ev (mk_world blocked_rows)))
         ''p1'' ''verify:1'' = Some final"
      "r_status final = Running" "r_metadata final = r_metadata refreshed"
    by (auto simp: ev e)
  have "map (\<lambda>j. (j_queue j, j_name j))
          (jobs (handleWorkerResult default_dispatcher ev (mk_world blocked_rows))) =
          [(''report-verifier'', ''p1:verify:1'')]"
    unfolding f(5) by (simp add: e ev mk_world_def toQueueName_def)
  with a c e(1) f show ?thesis unfolding ev_def [symmetric] by (auto simp: ev)
qed

subsection \<open>Enqueueing the ready tasks\<close>

lemma rows_enqueueTask:
  "rows (enqueueTask d p t w) =
     map (\<lambda>r. if has_key p (r_nodeId t) r
               then r\<lparr>status := Running, updated_at := clock w (stmts w)\<rparr> else r) (rows w)"
  by (simp add: enqueueTask_def Let_def updateStatus_def rows_sql_update queue_add_def no_meta_def)

lemma enq_rel_step:
  "list_all2 (enq_rel p {r_nodeId t}) (rows w) (rows (enqueueTask d p t w))"
  unfolding rows_enqueueTask list_all2_map2
  by (rule list_all2_refl) (auto simp: enq_rel_def has_key_def)

lemma enq_rel_trans:
  "enq_rel p K1 x y \<Longrightarrow> enq_rel p K2 y z \<Longrightarrow> enq_rel p (K1 \<union> K2) x z"
  by (auto simp: enq_rel_def split: if_splits)

lemma enq_rel_foldl:
  "list_all2 (enq_rel p (set (map r_nodeId ts))) (rows w)
     (rows (foldl (\<lambda>w' t. enqueueTask d p t w') w ts))"
proof (induction ts arbitrary: w)
  case Nil
  show ?case by (simp add: list_all2_refl enq_rel_def)
next
  case (Cons t ts)
  have "list_all2 (enq_rel p ({r_nodeId t} \<union> set (map r_nodeId ts))) (rows w)
          (rows (foldl (\<lambda>w' t. enqueueTask d p t w') (enqueueTask d p t w) ts))"
    using enq_rel_step [of p t w d] Cons.IH [of "enqueueTask d p t w"]
    by (rule list_all2_trans [rotated]) (rule enq_rel_trans)
  then show ?case by simp
qed

lemma ready_iff:
  "(x \<in> set (list_ready_tasks tbl p)) =
   (x \<in> set tbl \<and> project_id x = p \<and> status x = Pending \<and> \<not> blocking tbl x)"
  by (auto simp: list_ready_tasks_def blocking_def)

lemma blocking_iff:
  "blocking tbl ts =
   (\<exists>dep \<in> set (dependencies ts). \<exists>ds \<in> set tbl.
      project_id ds = project_id ts \<and> node_id ds = dep \<and> status ds \<noteq> Completed)"
  by (simp add: blocking_def list_ex_iff)

lemma list_all2_left: "list_all2 R xs ys \<Longrightarrow> x \<in> set xs \<Longrightarrow> \<exists>y \<in> set ys. R x y"
  by (induction rule: list_all2_induct) auto

lemma list_all2_right: "list_all2 R xs ys \<Longrightarrow> y \<in> set ys \<Longrightarrow> \<exists>x \<in> set xs. R x y"
  by (induction rule: list_all2_induct) auto

lemma no_ready_after_enqueue:
  "list_ready_tasks (rows (enqueueReadyTasks d p w)) p = []"
proof (rule ccontr)
  define K where "K = set (map r_nodeId (listReadyTasks (rows w) p))"
  define tbl' where "tbl' = rows (enqueueReadyTasks d p w)"
  have rel: "list_all2 (enq_rel p K) (rows w) tbl'"
    unfolding K_def tbl'_def enqueueReadyTasks_def by (rule enq_rel_foldl)
  have K: "K = node_id ` set (list_ready_tasks (rows w) p)"
    by (force simp: K_def listReadyTasks_def to_ready_record_def)
  assume "list_ready_tasks (rows (enqueueReadyTasks d p w)) p \<noteq> []"
  then obtain z where "z \<in> set (list_ready_tasks tbl' p)"
    by (cases "list_ready_tasks tbl' p") (auto simp: tbl'_def)
  then have z: "z \<in> set tbl'" "project_id z = p" "status z = Pending" "\<not> blocking tbl' z"
    by (simp_all add: ready_iff)
  from list_all2_right [OF rel z(1)] obtain x where x: "x \<in> set (rows w)" "enq_rel p K x z"
    by blast
  from x(2) z(3) have zx: "z = x" and "\<not> (project_id x = p \<and> node_id x \<in> K)"
    by (auto simp: enq_rel_def split: if_splits)
  with z(2) have "node_id x \<notin> K" by simp
  then have "x \<notin> set (list_ready_tasks (rows w) p)" by (auto simp: K)
  with x(1) z(2,3) zx have "blocking (rows w) x" by (simp add: ready_iff)
  then obtain dep ds where ds: "dep \<in> set (dependencies x)" "ds \<in> set (rows w)"
    "project_id ds = project_id x" "node_id ds = dep" "status ds \<noteq> Completed"
    by (auto simp: blocking_iff)
  from list_all2_left [OF rel ds(2)] obtain ds' where ds': "ds' \<in> set tbl'" "enq_rel p K ds ds'"
    by blast
  from ds'(2) ds(3,4,5) have "project_id ds' = project_id x" "node_id ds' = dep"
    "status ds' \<noteq> Completed"
    by (auto simp: enq_rel_def split: if_splits)
  with ds(1) ds'(1) zx have "blocking tbl' z" by (auto simp: blocking_iff)
  with z(4) show False by simp
qed

lemma enqueue_nothing_ready:
  "list_ready_tasks (rows w) p = [] \<Longrightarrow> enqueueReadyTasks d p w = w"
  by (simp add: enqueueReadyTasks_def listReadyTasks_def)

subsection \<open>Rows without their timestamps\<close>

lemma untimed_fields:
  "project_id (untimed r) = project_id r" "node_id (untimed r) = node_id r"
  "status (untimed r) = status r" "dependencies (untimed r) = dependencies r"
  by (simp_all add: untimed_def)

lemma list_ready_tasks_untimed:
  "list_ready_tasks (map untimed tbl) p = map untimed (list_ready_tasks tbl p)"
  by (simp add: list_ready_tasks_def filter_map o_def untimed_fields list_ex_iff)

lemma no_ready_untimed:
  assumes "map untimed tbl' = map untimed tbl" and "list_ready_tasks tbl p = []"
  shows "list_ready_tasks tbl' p = []"
proof -
  have "map untimed (list_ready_tasks tbl' p) = map untimed (list_ready_tasks tbl p)"
    using assms(1) by (simp add: list_ready_tasks_untimed [symmetric])
  with assms(2) show ?thesis by simp
qed


lemma rows_updateStatus:
  "rows (updateStatus p n st meta w) =
     map (\<lambda>r. if has_key p n r
               then r\<lparr>status := st,
                      result := (if m_result meta \<noteq> JUndefined then jsonify (m_result meta)
                                 else result r),
                      error := (case m_error meta of None \<Rightarrow> error r | Some e \<Rightarrow> e),
                      retries := (case m_retries meta of None \<Rightarrow> retries r | Some k \<Rightarrow> k),
                      metadata := (case m_metadata meta of None \<Rightarrow> metadata r
                                   | Some md \<Rightarrow> jsonify_fields md),
                      updated_at := clock w (stmts w)\<rparr>
               else r) (rows w)"
  by (simp add: updateStatus_def rows_sql_update)

lemma untimed_update_same:
  "status r = st \<Longrightarrow> (res \<noteq> JUndefined \<longrightarrow> result r = jsonify res) \<Longrightarrow>
   untimed (r\<lparr>status := st,
              result := (if res \<noteq> JUndefined then jsonify res else result r),
              updated_at := t\<rparr>) = untimed r"
  by (cases r) (auto simp: untimed_def)

text \<open>
  Claim C9. A result event of a kind other than verify and without an error, delivered
  twice in a row, leaves the store as one delivery does: after the first delivery the
  node's rows are \<open>completed\<close> with the event's result attached and no task of the
  project is ready; the second delivery changes no column of any row except the
  timestamp \<open>updated_at\<close> and adds no job.
\<close>

theorem duplicate_completed_result_is_idempotent:
  assumes kind: "re_type ev = Task k" "k \<noteq> Verify"
    and no_error: "\<not> truthy_str (re_error ev)"
  shows "map untimed (rows (handleWorkerResult d ev (handleWorkerResult d ev w))) =
           map untimed (rows (handleWorkerResult d ev w)) \<and>
         jobs (handleWorkerResult d ev (handleWorkerResult d ev w)) =
           jobs (handleWorkerResult d ev w) \<and>
         listReadyTasks (rows (handleWorkerResult d ev w)) (re_projectId ev) = [] \<and>
         (\<forall>r \<in> set (rows (handleWorkerResult d ev w)).
            has_key (re_projectId ev) (re_nodeId ev) r \<longrightarrow>
            status r = Completed \<and>
            (re_result ev \<noteq> JUndefined \<longrightarrow> result r = jsonify (re_result ev)))"
proof -
  define p where "p = re_projectId ev"
  define n where "n = re_nodeId ev"
  define u where "u = updateStatus p n Completed (no_meta\<lparr>m_result := re_result ev\<rparr>)"
  have h: "handleWorkerResult d ev x = enqueueReadyTasks d p (u x)" for x
    using kind no_error by (auto simp: handleWorkerResult_def p_def n_def u_def)
  define S0 where "S0 = u w"
  define S1 where "S1 = enqueueReadyTasks d p S0"
  have S1: "handleWorkerResult d ev w = S1" by (simp add: h S1_def S0_def)
  have rows_u: "rows (u x) =
      map (\<lambda>r. if has_key p n r
                then r\<lparr>status := Completed,
                       result := (if re_result ev \<noteq> JUndefined then jsonify (re_result ev)
                                  else result r),
                       updated_at := clock x (stmts x)\<rparr>
                else r) (rows x)" for x
    by (simp add: u_def rows_updateStatus no_meta_def)
  have done0: "status r = Completed \<and> (re_result ev \<noteq> JUndefined \<longrightarrow> result r = jsonify (re_result ev))"
    if "r \<in> set (rows S0)" "has_key p n r" for r
  proof -
    from that(1) obtain x where "x \<in> set (rows w)"
      "r = (if has_key p n x
                then x\<lparr>status := Completed,
                       result := (if re_result ev \<noteq> JUndefined then jsonify (re_result ev)
                                  else result x),
                       updated_at := clock w (stmts w)\<rparr>
                else x)"
      unfolding S0_def rows_u by auto
    with that(2) show ?thesis by (cases "has_key p n x") simp_all
  qed
  define K where "K = set (map r_nodeId (listReadyTasks (rows S0) p))"
  have rel: "list_all2 (enq_rel p K) (rows S0) (rows S1)"
    unfolding K_def S1_def enqueueReadyTasks_def by (rule enq_rel_foldl)
  have nK: "n \<notin> K"
  proof
    assume "n \<in> K"
    then obtain r where r: "r \<in> set (list_ready_tasks (rows S0) p)" "node_id r = n"
      by (auto simp: K_def listReadyTasks_def to_ready_record_def)
    then have "r \<in> set (rows S0)" "has_key p n r" "status r = Pending"
      by (simp_all add: ready_iff has_key_def)
    with done0 show False by auto
  qed
  have done1: "status r = Completed \<and> (re_result ev \<noteq> JUndefined \<longrightarrow> result r = jsonify (re_result ev))"
    if r: "r \<in> set (rows S1)" "has_key p n r" for r
  proof -
    from list_all2_right [OF rel r(1)] obtain x
      where x: "x \<in> set (rows S0)" "enq_rel p K x r" by blast
    have "r = x"
    proof (rule ccontr)
      assume "r \<noteq> x"
      with x(2) have "node_id x \<in> K" "node_id r = node_id x"
        by (auto simp: enq_rel_def split: if_splits)
      with r(2) nK show False by (simp add: has_key_def)
    qed
    with x(1) r(2) done0 show ?thesis by simp
  qed
  have same: "map untimed (rows (u S1)) = map untimed (rows S1)"
    unfolding rows_u map_map
  proof (rule map_cong [OF refl])
    fix r assume "r \<in> set (rows S1)"
    from done1 [OF this]
    show "(untimed \<circ> (\<lambda>r. if has_key p n r
                then r\<lparr>status := Completed,
                       result := (if re_result ev \<noteq> JUndefined then jsonify (re_result ev)
                                  else result r),
                       updated_at := clock S1 (stmts S1)\<rparr>
                else r)) r = untimed r"
      by (cases "has_key p n r") (simp_all add: untimed_update_same)
  qed
  have none1: "list_ready_tasks (rows S1) p = []"
    unfolding S1_def by (rule no_ready_after_enqueue)
  have none2: "list_ready_tasks (rows (u S1)) p = []"
    by (rule no_ready_untimed [OF same none1])
  have twice: "handleWorkerResult d ev S1 = u S1"
    by (simp add: h enqueue_nothing_ready [OF none2])
  have "jobs (u S1) = jobs S1" by (simp add: u_def jobs_updateStatus)
  with same twice none1 done1 show ?thesis
    unfolding S1 p_def [symmetric] n_def [symmetric]
    by (simp add: listReadyTasks_def)
qed


lemmas dispatch_defs = handleWorkerResult_def handleVerifyResult_def handleWorkerProgress_def
  handleAutofixFailure_def handleAutofixSuccess_def blockDependentsOnFailure_def
  enqueueReadyTasks_def enqueueTask_def queue_add_def buildJobPayload_def findResult_def
  find_dep_def starts_with_def spread_def defaultEnqueueOptions_def toQueueName_def
  truthy_str_def Let_def

lemmas eval_store_defs = has_key_def sql_update_def updateStatus_def to_record_def getTask_def
  getTasks_def list_ready_tasks_def to_ready_record_def listReadyTasks_def markBlocked_def
  status_of_def no_meta_def coalesce_def nullish_def obj_get_def

theorem duplicate_completed_result_is_idempotent_witness:
  "re_type (result_event ''write:1'' (Task Write) write_result None) = Task Write \<and>
   Write \<noteq> Verify \<and>
   \<not> truthy_str (re_error (result_event ''write:1'' (Task Write) write_result None)) \<and>
   map j_name (jobs (handleWorkerResult default_dispatcher
        (result_event ''write:1'' (Task Write) write_result None) (mk_world chain_rows))) =
     [''p1:verify:1''] \<and>
   jobs (handleWorkerResult default_dispatcher
        (result_event ''write:1'' (Task Write) write_result None)
        (handleWorkerResult default_dispatcher
           (result_event ''write:1'' (Task Write) write_result None) (mk_world chain_rows))) =
     jobs (handleWorkerResult default_dispatcher
        (result_event ''write:1'' (Task Write) write_result None) (mk_world chain_rows)) \<and>
   map untimed (rows (handleWorkerResult default_dispatcher
        (result_event ''write:1'' (Task Write) write_result None)
        (handleWorkerResult default_dispatcher
           (result_event ''write:1'' (Task Write) write_result None) (mk_world chain_rows)))) =
     map untimed (rows (handleWorkerResult default_dispatcher
        (result_event ''write:1'' (Task Write) write_result None) (mk_world chain_rows)))"
proof -
  define ev where "ev = result_event ''write:1'' (Task Write) write_result None"
  have a: "re_type ev = Task Write" "Write \<noteq> Verify" "\<not> truthy_str (re_error ev)"
    by (simp_all add: ev_def result_event_def truthy_str_def)
  have b: "map j_name (jobs (handleWorkerResult default_dispatcher ev (mk_world chain_rows))) =
     [''p1:verify:1'']"
    by (simp add: ev_def world_defs dispatch_defs eval_store_defs)
  from duplicate_completed_result_is_idempotent [OF a, of default_dispatcher "mk_world chain_rows"]
    a b
  show ?thesis unfolding ev_def [symmetric] by simp
qed


subsection \<open>Failure and its direct dependents\<close>












subsection \<open>Tables with a key and closed dependencies\<close>

lemma deps_closed_iff:
  "deps_closed tbl =
   (\<forall>r \<in> set tbl. \<forall>dep \<in> set (dependencies r). \<exists>d \<in> set tbl. has_key (project_id r) dep d)"
  by (simp add: deps_closed_def list_all_iff list_ex_iff)

lemma deps_closed_status:
  "deps_closed tbl \<Longrightarrow> r \<in> set tbl \<Longrightarrow> dep \<in> set (dependencies r) \<Longrightarrow>
   status_of tbl (project_id r) dep \<noteq> None"
  unfolding deps_closed_iff status_of_None by blast

lemma primary_key_map:
  assumes "\<And>r. project_id (g r) = project_id r \<and> node_id (g r) = node_id r"
  shows "primary_key (map g tbl) = primary_key tbl"
  by (simp add: primary_key_def o_def assms)

lemma deps_closed_map:
  assumes g: "\<And>r. project_id (g r) = project_id r \<and> node_id (g r) = node_id r \<and>
                  dependencies (g r) = dependencies r"
    and "deps_closed tbl"
  shows "deps_closed (map g tbl)"
  using assms(2) unfolding deps_closed_iff by (auto simp: g has_key_def)

lemma store_ok_sql_update:
  assumes "\<And>r. project_id (f r) = project_id r \<and> node_id (f r) = node_id r \<and>
                dependencies (f r) = dependencies r"
    and "store_ok (rows w)"
  shows "store_ok (rows (sql_update P f w))"
proof -
  define g where "g = (\<lambda>r. if P r then (f r)\<lparr>updated_at := clock w (stmts w)\<rparr> else r)"
  have g: "project_id (g r) = project_id r \<and> node_id (g r) = node_id r \<and>
           dependencies (g r) = dependencies r" for r
    by (simp add: g_def assms(1))
  have "rows (sql_update P f w) = map g (rows w)" by (simp add: rows_sql_update g_def)
  with assms(2) primary_key_map [of g "rows w"] deps_closed_map [of g "rows w"] g
  show ?thesis by (simp add: store_ok_def)
qed

lemma store_ok_updateStatus: "store_ok (rows w) \<Longrightarrow> store_ok (rows (updateStatus p n st meta w))"
  unfolding updateStatus_def by (rule store_ok_sql_update) simp_all

lemma store_ok_markBlocked: "store_ok (rows w) \<Longrightarrow> store_ok (rows (markBlocked p ids w))"
  unfolding markBlocked_def by (auto intro: store_ok_sql_update)

lemma store_ok_queue_add: "store_ok (rows w) \<Longrightarrow> store_ok (rows (queue_add q name payload opts w))"
  by (simp add: queue_add_def)

lemma store_ok_enqueueTask: "store_ok (rows w) \<Longrightarrow> store_ok (rows (enqueueTask d p t w))"
  unfolding enqueueTask_def Let_def by (intro store_ok_updateStatus store_ok_queue_add)

lemma store_ok_foldl_enqueue:
  "store_ok (rows w) \<Longrightarrow> store_ok (rows (foldl (\<lambda>w' t. enqueueTask d p t w') w ts))"
  by (induction ts arbitrary: w) (simp_all add: store_ok_enqueueTask)

lemma store_ok_enqueueReadyTasks:
  "store_ok (rows w) \<Longrightarrow> store_ok (rows (enqueueReadyTasks d p w))"
  unfolding enqueueReadyTasks_def by (rule store_ok_foldl_enqueue)

lemma store_ok_block:
  "store_ok (rows w) \<Longrightarrow> store_ok (rows (blockDependentsOnFailure p n w))"
  by (simp add: blockDependentsOnFailure_def store_ok_markBlocked split: option.splits)

lemma store_ok_autofix_failure:
  "store_ok (rows w) \<Longrightarrow> store_ok (rows (handleAutofixFailure ev w))"
  unfolding handleAutofixFailure_def by (intro store_ok_block store_ok_updateStatus)

lemma store_ok_autofix_success:
  "store_ok (rows w) \<Longrightarrow> store_ok (rows (handleAutofixSuccess d ev w))"
  by (simp add: handleAutofixSuccess_def autofix_reset_def Let_def store_ok_enqueueTask
        store_ok_updateStatus split: option.splits)

lemma store_ok_verify:
  "store_ok (rows w) \<Longrightarrow> store_ok (rows (handleVerifyResult d ev w))"
  by (simp add: handleVerifyResult_def Let_def store_ok_enqueueReadyTasks store_ok_updateStatus
        store_ok_block store_ok_queue_add split: option.splits)

lemma store_ok_progress:
  "store_ok (rows w) \<Longrightarrow> store_ok (rows (handleWorkerProgress ev w))"
  by (simp add: handleWorkerProgress_def store_ok_autofix_failure store_ok_updateStatus
        store_ok_block)

lemma store_ok_result:
  "store_ok (rows w) \<Longrightarrow> store_ok (rows (handleWorkerResult d ev w))"
  by (simp add: handleWorkerResult_def store_ok_autofix_failure store_ok_autofix_success
        store_ok_updateStatus store_ok_block store_ok_verify store_ok_enqueueReadyTasks)

lemma store_ok_deliver: "store_ok (rows w) \<Longrightarrow> store_ok (rows (deliver d ev w))"
  by (cases ev) (simp_all add: store_ok_progress store_ok_result)


lemma store_ok_clearProject: "store_ok (rows w) \<Longrightarrow> store_ok (rows (clearProject p w))"
proof -
  assume ok: "store_ok (rows w)"
  have "primary_key (filter (\<lambda>r. project_id r \<noteq> p) (rows w))"
    using ok by (simp add: store_ok_def primary_key_def distinct_map_filter)
  moreover have "deps_closed (filter (\<lambda>r. project_id r \<noteq> p) (rows w))"
    using ok unfolding store_ok_def deps_closed_iff by (fastforce simp: has_key_def)
  ultimately show ?thesis by (simp add: clearProject_def store_ok_def)
qed

lemma store_ok_insert:
  assumes ok: "store_ok (rows w)"
    and ins: "insert_rows new w = Inr w'"
    and closed: "\<forall>r \<in> set new. \<forall>dep \<in> set (dependencies r).
                   \<exists>d \<in> set new. has_key (project_id r) dep d"
  shows "store_ok (rows w')"
proof -
  define stamp where "stamp = (\<lambda>r::task_row. r\<lparr>updated_at := clock w (stmts w)\<rparr>)"
  from ins have d: "distinct (map (\<lambda>r. (project_id r, node_id r)) (rows w @ new))"
    and w': "rows w' = rows w @ map stamp new"
    by (auto simp: insert_rows_def stamp_def split: if_splits)
  have keys: "map (\<lambda>r. (project_id r, node_id r)) (map stamp new) =
              map (\<lambda>r. (project_id r, node_id r)) new"
    by (simp add: stamp_def o_def)
  have pk: "primary_key (rows w')"
    using d unfolding primary_key_def w' map_append keys by simp
  have cl: "deps_closed (rows w')"
    unfolding deps_closed_iff
  proof (intro ballI)
    fix r dep assume r: "r \<in> set (rows w')" and dep: "dep \<in> set (dependencies r)"
    from r consider "r \<in> set (rows w)" | r0 where "r0 \<in> set new" "r = stamp r0"
      by (auto simp: w')
    then show "\<exists>d \<in> set (rows w'). has_key (project_id r) dep d"
    proof cases
      case 1
      with ok dep obtain d0 where "d0 \<in> set (rows w)" "has_key (project_id r) dep d0"
        unfolding store_ok_def deps_closed_iff by blast
      then show ?thesis by (auto simp: w')
    next
      case 2
      with dep have "dep \<in> set (dependencies r0)" "project_id r = project_id r0"
        by (simp_all add: stamp_def)
      with closed 2(1) obtain d0 where d0: "d0 \<in> set new" "has_key (project_id r) dep d0"
        by fastforce
      then have "stamp d0 \<in> set (rows w')" "has_key (project_id r) dep (stamp d0)"
        by (simp_all add: w' stamp_def has_key_def)
      then show ?thesis by blast
    qed
  qed
  from pk cl show ?thesis by (simp add: store_ok_def)
qed

lemma store_ok_addDependent:
  "store_ok (rows w) \<Longrightarrow> store_ok (rows (addDependent p a b w))"
  unfolding addDependent_def Let_def by (auto intro: store_ok_sql_update)

lemma store_ok_foldl_addDependent:
  "store_ok (rows w) \<Longrightarrow>
   store_ok (rows (foldl (\<lambda>w' e. addDependent p (e_from e) (e_to e) w') w es))"
  by (induction es arbitrary: w) (simp_all add: store_ok_addDependent)

lemma store_ok_persistDag:
  assumes ok: "store_ok (rows w)"
    and closed: "\<forall>n \<in> set (nodes dag). set (tn_dependencies n) \<subseteq> tn_id ` set (nodes dag)"
    and persisted: "persistDag p dag w = Inr w'"
  shows "store_ok (rows w')"
proof -
  from persisted obtain w1
    where w1: "insert_rows (map (node_row p) (nodes dag)) w = Inr w1"
      and w': "w' = foldl (\<lambda>w' e. addDependent p (e_from e) (e_to e) w') w1 (edges dag)"
    by (auto simp: persistDag_def split: sum.splits)
  have "\<forall>r \<in> set (map (node_row p) (nodes dag)). \<forall>dep \<in> set (dependencies r).
          \<exists>d \<in> set (map (node_row p) (nodes dag)). has_key (project_id r) dep d"
  proof (intro ballI)
    fix r dep assume "r \<in> set (map (node_row p) (nodes dag))" "dep \<in> set (dependencies r)"
    then obtain n where n: "n \<in> set (nodes dag)" "r = node_row p n" "dep \<in> set (tn_dependencies n)"
      by (auto simp: node_row_def)
    with closed obtain m where "m \<in> set (nodes dag)" "dep = tn_id m" by blast
    with n(2) show "\<exists>d \<in> set (map (node_row p) (nodes dag)). has_key (project_id r) dep d"
      by (auto simp: node_row_def has_key_def)
  qed
  from store_ok_insert [OF ok w1 this] show ?thesis
    unfolding w' by (rule store_ok_foldl_addDependent)
qed

lemma store_ok_schedule:
  assumes "store_ok (rows w)" and "schedule d p (buildDag ctx) reset w = Inr w'"
  shows "store_ok (rows w')"
proof -
  define w0 where "w0 = (if reset then clearProject p w else w)"
  have ok0: "store_ok (rows w0)"
    using assms(1) by (simp add: w0_def store_ok_clearProject)
  from assms(2) obtain w1 where w1: "persistDag p (buildDag ctx) w0 = Inr w1"
    and w': "w' = enqueueReadyTasks d p w1"
    by (auto simp: schedule_def w0_def split: sum.splits)
  have "\<forall>n \<in> set (nodes (buildDag ctx)).
          set (tn_dependencies n) \<subseteq> tn_id ` set (nodes (buildDag ctx))"
    using dag_closed by blast
  from store_ok_persistDag [OF ok0 this w1] show ?thesis
    unfolding w' by (rule store_ok_enqueueReadyTasks)
qed

lemma reachable_store_ok: "reachable w \<Longrightarrow> primary_key (rows w) \<and> deps_closed (rows w)"
proof (induction rule: reachable.induct)
  case (start w)
  then show ?case by (simp add: primary_key_def deps_closed_def)
next
  case (scheduled w d p ctx reset w')
  from store_ok_schedule [OF _ scheduled.hyps(2)] scheduled.IH
  show ?case by (simp add: store_ok_def)
next
  case (delivered w d ev)
  from store_ok_deliver [of w d ev] delivered.IH show ?case by (simp add: store_ok_def)
next
  case (resumed w d p)
  from store_ok_enqueueReadyTasks [of w d p] resumed.IH show ?case by (simp add: store_ok_def)
qed

lemma list_ready_tasks_spec_ready:
  assumes "primary_key tbl" and "deps_closed tbl"
  shows "list_ready_tasks tbl p = filter (spec_ready tbl p) tbl"
proof -
  have "filter (code_ready tbl p) tbl = filter (spec_ready tbl p) tbl"
  proof (rule filter_cong)
    fix r assume r: "r \<in> set tbl"
    show "code_ready tbl p r = spec_ready tbl p r"
    proof (cases "project_id r = p")
      case True
      with deps_closed_status [OF assms(2) r]
      have "\<forall>dep \<in> set (dependencies r). status_of tbl p dep \<noteq> None" by blast
      then show ?thesis unfolding code_ready_def spec_ready_def list_all_iff by blast
    next
      case False
      then show ?thesis by (simp add: code_ready_def spec_ready_def)
    qed
  qed simp
  with list_ready_tasks_code_ready [OF assms(1)] show ?thesis by simp
qed

lemma reachable_ready_tasks:
  "reachable w \<Longrightarrow>
   listReadyTasks (rows w) p = map to_ready_record (filter (spec_ready (rows w) p) (rows w))"
  using reachable_store_ok [of w] by (simp add: listReadyTasks_def list_ready_tasks_spec_ready)

subsection \<open>The ready tasks\<close>

text \<open>
  Claim C2. Every table the system can reach respects its primary key and holds a row
  for every dependency id of every row (lemma \<open>reachable_store_ok\<close>). On every such
  table, whatever the statuses of its rows, \<open>listReadyTasks\<close> returns exactly the records
  of the project whose status is \<open>pending\<close> and whose every dependency id has status
  \<open>completed\<close>; no other record is returned.
\<close>

theorem ready_tasks_exact:
  assumes "primary_key tbl" and "deps_closed tbl"
  shows "listReadyTasks tbl p = map to_ready_record (filter (spec_ready tbl p) tbl) \<and>
         set (map r_nodeId (listReadyTasks tbl p)) =
           {node_id r | r. r \<in> set tbl \<and> project_id r = p \<and> status r = Pending \<and>
              (\<forall>dep \<in> set (dependencies r). status_of tbl p dep = Some Completed)}"
proof -
  have a: "listReadyTasks tbl p = map to_ready_record (filter (spec_ready tbl p) tbl)"
    by (simp add: listReadyTasks_def list_ready_tasks_spec_ready [OF assms])
  have "set (map r_nodeId (listReadyTasks tbl p)) = node_id ` {r \<in> set tbl. spec_ready tbl p r}"
    unfolding a by (auto simp: to_ready_record_def)
  also have "\<dots> = {node_id r | r. r \<in> set tbl \<and> project_id r = p \<and> status r = Pending \<and>
              (\<forall>dep \<in> set (dependencies r). status_of tbl p dep = Some Completed)}"
    by (auto simp: spec_ready_def list_all_iff)
  finally show ?thesis using a by simp
qed

theorem ready_tasks_exact_witness:
  "primary_key restart_rows \<and> deps_closed restart_rows \<and>
   map r_nodeId (listReadyTasks restart_rows ''p1'') = [''write:1'']"
proof -
  have pk: "primary_key restart_rows"
    by (simp add: primary_key_def restart_rows_def mk_row_def)
  have cl: "deps_closed restart_rows"
    by (simp add: deps_closed_def restart_rows_def mk_row_def has_key_def)
  from ready_tasks_exact [OF pk cl, of "''p1''"]
  have "listReadyTasks restart_rows ''p1'' =
          map to_ready_record (filter (spec_ready restart_rows ''p1'') restart_rows)" by blast
  then have "map r_nodeId (listReadyTasks restart_rows ''p1'') = [''write:1'']"
    by (simp add: restart_rows_def mk_row_def spec_ready_def status_of_def has_key_def
          to_ready_record_def)
  with pk cl show ?thesis by simp
qed

end
